theory Spec2Isabelle
  imports Main "HOL-Library.Word" "HOL-Library.Sublist"
begin

unbundle bit_operations_syntax

section \<open>Go values used by the message verifier\<close>

text \<open>
  A Go \<open>string\<close> and a Go \<open>[]byte\<close> are both sequences of bytes, and the
  conversions \<open>[]byte(s)\<close> and \<open>string(b)\<close> copy them unchanged; both are
  modelled as \<open>string\<close> (a list of 8-bit characters).

  A Go \<open>error\<close> value is built in this package by \<open>errors.New\<close> and by
  \<open>fmt.Errorf\<close> with the verb \<open>%w\<close>; \<open>CorruptInputError\<close> is the error of
  \<open>encoding/base64\<close> (its byte offset is left out: the verifier discards the value).
\<close>

datatype error =
    errors_New string
  | fmt_Errorf_w string error
  | CorruptInputError

text \<open>
  A call either returns or ends in a run-time panic (a nil dereference, a call of a nil
  function value).
\<close>

datatype 'a outcome = Returns 'a | Panics string

section \<open>Standard library functions the verifier calls\<close>

subsection \<open>strings.Split\<close>

text \<open>
  \<open>strings.Split(s, sep)\<close>: the substrings between the occurrences of \<open>sep\<close>, found
  from left to right without overlap; one more element than there are occurrences.
  With an empty separator Go cuts the string after every UTF-8 sequence, here after
  every byte; the verifier always passes the separator \<open>--\<close>.
\<close>

fun Split :: "string \<Rightarrow> string \<Rightarrow> string list" where
  "Split s [] = map (\<lambda>c. [c]) s"
| "Split [] (a # as) = [[]]"
| "Split (c # cs) (a # as) =
     (if prefix (a # as) (c # cs) then [] # Split (drop (length as) cs) (a # as)
      else (case Split cs (a # as) of
              [] \<Rightarrow> [[c]]
            | p # ps \<Rightarrow> (c # p) # ps))"

subsection \<open>encoding/hex\<close>

definition hextable :: string where
  "hextable = ''0123456789abcdef''"

text \<open>\<open>hex.EncodeToString\<close>: two digits per byte, \<open>hextable[v >> 4]\<close> then
  \<open>hextable[v & 0x0f]\<close>.\<close>

fun hex_EncodeToString :: "string \<Rightarrow> string" where
  "hex_EncodeToString [] = []"
| "hex_EncodeToString (v # src) =
     hextable ! (of_char v div 16) # hextable ! (of_char v mod 16) # hex_EncodeToString src"

subsection \<open>encoding/base64, StdEncoding\<close>

definition encodeStd :: string where
  "encodeStd = ''ABCDEFGHIJKLMNOPQRSTUVWXYZabcdefghijklmnopqrstuvwxyz0123456789+/''"

definition StdPadding :: char where
  "StdPadding = CHR ''=''"

text \<open>
  \<open>EncodeToString\<close>: three bytes \<open>b0 b1 b2\<close> form the 24-bit value
  \<open>b0<<16 | b1<<8 | b2\<close>, written as four characters \<open>encodeStd[val>>18 & 0x3F]\<close>,
  \<open>encodeStd[val>>12 & 0x3F]\<close>, \<open>encodeStd[val>>6 & 0x3F]\<close>, \<open>encodeStd[val & 0x3F]\<close>.
  A remainder of one or two bytes is padded with \<open>=\<close> to four characters.
\<close>

definition enc6 :: "nat \<Rightarrow> nat \<Rightarrow> char" where
  "enc6 val k = encodeStd ! (val div 2 ^ k mod 64)"

fun EncodeToString :: "string \<Rightarrow> string" where
  "EncodeToString [] = []"
| "EncodeToString [b0] =
     (let val = of_char b0 * 2 ^ 16
      in [enc6 val 18, enc6 val 12, StdPadding, StdPadding])"
| "EncodeToString [b0, b1] =
     (let val = of_char b0 * 2 ^ 16 + of_char b1 * 2 ^ 8
      in [enc6 val 18, enc6 val 12, enc6 val 6, StdPadding])"
| "EncodeToString (b0 # b1 # b2 # src) =
     (let val = of_char b0 * 2 ^ 16 + of_char b1 * 2 ^ 8 + of_char b2
      in enc6 val 18 # enc6 val 12 # enc6 val 6 # enc6 val 0 # EncodeToString src)"

text \<open>
  \<open>decodeMap\<close>: the position of a character in the alphabet; \<open>None\<close> stands for the
  table's entry \<open>0xff\<close> of every other byte.
\<close>

definition decodeMap :: "char \<Rightarrow> nat option" where
  "decodeMap c = map_of (zip encodeStd [0..<64]) c"

definition is_newline :: "char \<Rightarrow> bool" where
  "is_newline c = (c = CHR 0x0A \<or> c = CHR 0x0D)"

text \<open>
  The bytes of one quantum, from its \<open>dlen\<close> six-bit values \<open>dbuf\<close> (two, three or
  four of them), as \<open>decodeQuantum\<close> ends: \<open>val = dbuf[0]<<18 | dbuf[1]<<12 | dbuf[2]<<6 |
  dbuf[3]\<close> gives \<open>dlen - 1\<close> bytes, and the strict encoding refuses a quantum whose
  unused low bits are not zero, giving no byte of it.
\<close>

definition quantum_val :: "nat list \<Rightarrow> nat" where
  "quantum_val dbuf =
     (let d = dbuf @ replicate (4 - length dbuf) 0
      in d ! 0 * 2 ^ 18 + d ! 1 * 2 ^ 12 + d ! 2 * 2 ^ 6 + d ! 3)"

definition quantum_bytes :: "nat list \<Rightarrow> error option \<Rightarrow> string \<times> error option" where
  "quantum_bytes dbuf err =
     (let val = quantum_val dbuf;
          b0 = val div 2 ^ 16 mod 256; b1 = val div 2 ^ 8 mod 256; b2 = val mod 256
      in if length dbuf = 4 then ([char_of b0, char_of b1, char_of b2], err)
         else if length dbuf = 3 then
           (if b2 \<noteq> 0 then ([], Some CorruptInputError) else ([char_of b0, char_of b1], err))
         else
           (if b1 \<noteq> 0 \<or> b2 \<noteq> 0 then ([], Some CorruptInputError) else ([char_of b0], err)))"

text \<open>
  \<open>StdEncoding.Strict().DecodeString\<close>: the bytes decoded before the first error, and
  the error. \<open>decode dbuf src\<close> is the decoder with the six-bit values \<open>dbuf\<close> of the
  current quantum read and \<open>src\<close> left to read. Line feeds and carriage returns are
  skipped; input that ends inside a quantum, a byte outside the alphabet and misplaced
  or missing padding are errors; bytes after the padding are an error that keeps the
  padded quantum's bytes.
\<close>

fun decode :: "nat list \<Rightarrow> string \<Rightarrow> string \<times> error option" where
  "decode dbuf [] = ([], if dbuf = [] then None else Some CorruptInputError)"
| "decode dbuf (c # src) =
     (case decodeMap c of
        Some v \<Rightarrow>
          if length dbuf = 3 then
            (let (out, err) = decode [] src
             in (fst (quantum_bytes (dbuf @ [v]) None) @ out, err))
          else decode (dbuf @ [v]) src
      | None \<Rightarrow>
          if is_newline c then decode dbuf src
          else if c \<noteq> StdPadding then ([], Some CorruptInputError)
          else if length dbuf < 2 then ([], Some CorruptInputError)
          else if length dbuf = 2 then
            (case dropWhile is_newline src of
               [] \<Rightarrow> ([], Some CorruptInputError)
             | c' # src' \<Rightarrow>
                 if c' \<noteq> StdPadding then ([], Some CorruptInputError)
                 else quantum_bytes dbuf
                        (if dropWhile is_newline src' \<noteq> [] then Some CorruptInputError else None))
          else quantum_bytes dbuf
                 (if dropWhile is_newline src \<noteq> [] then Some CorruptInputError else None))"

definition DecodeString :: "string \<Rightarrow> string \<times> error option" where
  "DecodeString s = decode [] s"

subsection \<open>hash.Hash, crypto/sha1 and crypto/hmac\<close>

text \<open>
  A \<open>hash.Hash\<close> as \<open>crypto/hmac\<close> uses it: \<open>hash_Sum h bs\<close> is what \<open>Sum(nil)\<close>
  returns once the bytes \<open>bs\<close> have been written to a fresh (or reset) hash, with the
  hash's \<open>Size()\<close> and \<open>BlockSize()\<close>. The field \<open>Hasher\<close> of the verifier is a
  function value that makes such a hash.
\<close>

record hash_Hash =
  hash_Sum :: "string \<Rightarrow> string"
  hash_Size :: nat
  hash_BlockSize :: nat

text \<open>
  SHA-1 (FIPS 180-4), the hash that \<open>sha1.New\<close> makes: the message is padded to a
  multiple of 64 bytes with \<open>0x80\<close>, zeros and its length in bits, and each block of
  64 bytes updates five 32-bit words in 80 rounds.
\<close>

definition be_bytes32 :: "32 word \<Rightarrow> string" where
  "be_bytes32 w =
     [char_of (unat (drop_bit 24 w)), char_of (unat (drop_bit 16 w)),
      char_of (unat (drop_bit 8 w)), char_of (unat w)]"

definition be_word32 :: "string \<Rightarrow> 32 word" where
  "be_word32 bs = foldl (\<lambda>w b. push_bit 8 w OR of_char b) 0 (take 4 bs)"

definition be_bytes64 :: "64 word \<Rightarrow> string" where
  "be_bytes64 w = map (\<lambda>i. char_of (unat (drop_bit (8 * (7 - i)) w))) [0..<8]"

definition sha1_pad :: "string \<Rightarrow> string" where
  "sha1_pad msg =
     msg @ [CHR 0x80] @ replicate ((119 - length msg mod 64) mod 64) (CHR 0x00)
       @ be_bytes64 (push_bit 3 (of_nat (length msg)))"

fun sha1_schedule :: "nat \<Rightarrow> 32 word list \<Rightarrow> 32 word list" where
  "sha1_schedule 0 w = w"
| "sha1_schedule (Suc n) w =
     (let t = length w
      in sha1_schedule n
           (w @ [word_rotl 1 (w ! (t - 3) XOR w ! (t - 8) XOR w ! (t - 14) XOR w ! (t - 16))]))"

type_synonym sha1_state = "32 word \<times> 32 word \<times> 32 word \<times> 32 word \<times> 32 word"

definition sha1_round :: "nat \<Rightarrow> 32 word \<Rightarrow> sha1_state \<Rightarrow> sha1_state" where
  "sha1_round t wt s =
     (case s of (a, b, c, d, e) \<Rightarrow>
        (let f = (if t < 20 then (b AND c) OR (NOT b AND d)
                  else if t < 40 then b XOR c XOR d
                  else if t < 60 then ((b OR c) AND d) OR (b AND c)
                  else b XOR c XOR d);
             k = (if t < 20 then 0x5A827999 else if t < 40 then 0x6ED9EBA1
                  else if t < 60 then 0x8F1BBCDC else 0xCA62C1D6)
         in (word_rotl 5 a + f + e + wt + k, a, word_rotl 30 b, c, d)))"

fun sha1_rounds :: "nat \<Rightarrow> 32 word list \<Rightarrow> sha1_state \<Rightarrow> sha1_state" where
  "sha1_rounds t [] s = s"
| "sha1_rounds t (wt # w) s = sha1_rounds (Suc t) w (sha1_round t wt s)"

definition sha1_block :: "sha1_state \<Rightarrow> string \<Rightarrow> sha1_state" where
  "sha1_block h p =
     (let w = sha1_schedule 64 (map (\<lambda>i. be_word32 (drop (4 * i) p)) [0..<16])
      in case (h, sha1_rounds 0 w h) of
           ((h0, h1, h2, h3, h4), (a, b, c, d, e)) \<Rightarrow> (h0 + a, h1 + b, h2 + c, h3 + d, h4 + e))"

fun sha1_blocks :: "nat \<Rightarrow> sha1_state \<Rightarrow> string \<Rightarrow> sha1_state" where
  "sha1_blocks 0 h p = h"
| "sha1_blocks (Suc n) h p = sha1_blocks n (sha1_block h (take 64 p)) (drop 64 p)"

definition sha1_init :: sha1_state where
  "sha1_init = (0x67452301, 0xEFCDAB89, 0x98BADCFE, 0x10325476, 0xC3D2E1F0)"

definition sha1_Sum :: "string \<Rightarrow> string" where
  "sha1_Sum msg =
     (let p = sha1_pad msg
      in case sha1_blocks (length p div 64) sha1_init p of
           (h0, h1, h2, h3, h4) \<Rightarrow>
             be_bytes32 h0 @ be_bytes32 h1 @ be_bytes32 h2 @ be_bytes32 h3 @ be_bytes32 h4)"

definition sha1_New :: hash_Hash where
  "sha1_New = \<lparr>hash_Sum = sha1_Sum, hash_Size = 20, hash_BlockSize = 64\<rparr>"

text \<open>
  \<open>hmac.New(h, key)\<close>, \<open>Write(data)\<close>, \<open>Sum(nil)\<close>: a key longer than the block size
  is hashed first; the key is copied into two blocks of zeros, one xor-ed with \<open>0x36\<close>
  and one with \<open>0x5c\<close>; the result is the outer hash of \<open>opad\<close> and the inner hash of
  \<open>ipad\<close> and the data.
\<close>

definition xor_byte :: "nat \<Rightarrow> char \<Rightarrow> char" where
  "xor_byte k c = char_of (of_char c XOR k)"

definition hmac_Sum :: "hash_Hash \<Rightarrow> string \<Rightarrow> string \<Rightarrow> string" where
  "hmac_Sum h key data =
     (let blocksize = hash_BlockSize h;
          key' = (if length key > blocksize then hash_Sum h key else key);
          pad = take blocksize (key' @ replicate blocksize (CHR 0x00));
          ipad = map (xor_byte 0x36) pad;
          opad = map (xor_byte 0x5c) pad
      in hash_Sum h (opad @ hash_Sum h (ipad @ data)))"

section \<open>The message verifier (crypto/message_verifier.go)\<close>

text \<open>
  Modelled from the spec: the interface \<open>MsgSerializer\<close> is declared in a file of the
  package other than \<open>message_verifier.go\<close>. Its two methods are
  \<open>Serialize(value) (string, error)\<close> and \<open>Unserialize(data, target) error\<close>, the second
  writing through the pointer \<open>target\<close>: here it takes the value the target holds and
  returns the value it holds afterwards with the error. Values to sign and targets have
  the type \<open>'v\<close>.
\<close>

record 'v MsgSerializer =
  Serialize :: "'v \<Rightarrow> string \<times> error option"
  Unserialize :: "string \<Rightarrow> 'v \<Rightarrow> 'v \<times> error option"

text \<open>
  The struct \<open>MessageVerifier\<close>. A nil slice, a nil function value and a nil interface
  value are \<open>None\<close>; an empty but non-nil \<open>Secret\<close> is \<open>Some []\<close>. The methods have
  the receiver \<open>crypt *MessageVerifier\<close>: a \<open>'v MessageVerifier option\<close>, \<open>None\<close>
  for the nil pointer, and a method that may assign a field returns the struct as it is
  after the call.
\<close>

record 'v MessageVerifier =
  Secret :: "string option"
  Hasher :: "hash_Hash option"
  Serializer :: "'v MsgSerializer option"

definition nil_dereference :: string where
  "nil_dereference = ''runtime error: invalid memory address or nil pointer dereference''"

definition checkInit :: "'v MessageVerifier option \<Rightarrow> 'v MessageVerifier option \<times> error option" where
  "checkInit crypt =
     (case crypt of
        None \<Rightarrow> (None, Some (errors_New ''MessageVerifier not set''))
      | Some c \<Rightarrow>
          if Serializer c = None then (Some c, Some (errors_New ''Serializer not set''))
          else
            (let c' = (if Hasher c = None then c\<lparr>Hasher := Some sha1_New\<rparr> else c)
             in if Secret c' = None then (Some c', Some (errors_New ''Secret not set''))
                else (Some c', None)))"

definition IsValid :: "'v MessageVerifier option \<Rightarrow> 'v MessageVerifier option \<times> bool \<times> error option" where
  "IsValid crypt =
     (case checkInit crypt of
        (crypt', Some e) \<Rightarrow> (crypt', False, Some e)
      | (crypt', None) \<Rightarrow> (crypt', True, None))"

definition DigestFor :: "'v MessageVerifier option \<Rightarrow> string \<Rightarrow> string outcome" where
  "DigestFor crypt data =
     (case crypt of
        None \<Rightarrow> Panics nil_dereference
      | Some c \<Rightarrow>
          (case Secret c of
             None \<Rightarrow> Returns ''Y U SET NO SECRET???!''
           | Some secret \<Rightarrow>
               (case Hasher c of
                  None \<Rightarrow> Panics nil_dereference
                | Some h \<Rightarrow> Returns (hex_EncodeToString (hmac_Sum h secret data)))))"

text \<open>
  The loop of \<open>secureCompare\<close>, from index \<open>i\<close> with the accumulator \<open>res\<close>:
  \<open>for ; i < len(a); i++ { res |= int(b[i]) ^ int(a[i]) }\<close>. The values are bytes
  widened to Go's \<open>int\<close> and stay below 256, so \<open>int\<close> never wraps.
\<close>

function secureCompare_loop :: "string \<Rightarrow> string \<Rightarrow> nat \<Rightarrow> int \<Rightarrow> int" where
  "secureCompare_loop a b i res =
     (if i < length a
      then secureCompare_loop a b (Suc i) (res OR (of_char (b ! i) XOR of_char (a ! i)))
      else res)"
  by pat_completeness auto
termination
  by (relation "measure (\<lambda>(a, b, i, res). length a - i)") auto

declare secureCompare_loop.simps [simp del]

definition secureCompare :: "string \<Rightarrow> string \<Rightarrow> bool" where
  "secureCompare strA strB =
     (if length strA \<noteq> length strB then False
      else secureCompare_loop strA strB 0 0 = 0)"

text \<open>The double quote character; the source's string of one double quote is \<open>[dquote]\<close>.\<close>

definition dquote :: char where
  "dquote = CHR 0x22"

definition invalid :: "string \<Rightarrow> error" where
  "invalid msg = errors_New (''Invalid signature - '' @ msg)"

text \<open>
  What a call of \<open>Verify\<close> leaves: the receiver's struct, the value the target holds, the
  strings handed to \<open>Serializer.Unserialize\<close> in the order of the calls, and the error
  returned.
\<close>

record 'v verified =
  v_crypt :: "'v MessageVerifier option"
  v_target :: "'v"
  v_unserialized :: "string list"
  v_err :: "error option"

definition Verify :: "'v MessageVerifier option \<Rightarrow> string \<Rightarrow> 'v \<Rightarrow> 'v verified outcome" where
  "Verify crypt msg target =
     (case checkInit crypt of
        (crypt', Some e) \<Rightarrow>
          Returns \<lparr>v_crypt = crypt', v_target = target, v_unserialized = [], v_err = Some e\<rparr>
      | (crypt', None) \<Rightarrow>
          if msg = [] then
            Returns \<lparr>v_crypt = crypt', v_target = target, v_unserialized = [],
                     v_err = Some (invalid ''empty message'')\<rparr>
          else
            (let dataDigest = Split msg ''--''
             in if length dataDigest \<noteq> 2 then
                  Returns \<lparr>v_crypt = crypt', v_target = target, v_unserialized = [],
                           v_err = Some (invalid ''bad data --'')\<rparr>
                else
                  (let data = dataDigest ! 0; digest = dataDigest ! 1
                   in case DigestFor crypt' data of
                        Panics p \<Rightarrow> Panics p
                      | Returns expected \<Rightarrow>
                          if secureCompare digest expected = False then
                            Returns \<lparr>v_crypt = crypt', v_target = target, v_unserialized = [],
                                     v_err = Some (invalid ''bad data (compare)'')\<rparr>
                          else
                            (let decodedData = fst (DecodeString data);
                                 decodedString = [dquote] @ decodedData @ [dquote]
                             in case crypt' of
                                  None \<Rightarrow> Panics nil_dereference
                                | Some c \<Rightarrow>
                                    (case Serializer c of
                                       None \<Rightarrow> Panics nil_dereference
                                     | Some s \<Rightarrow>
                                         (case Unserialize s decodedString target of
                                            (t1, None) \<Rightarrow>
                                              Returns \<lparr>v_crypt = crypt', v_target = t1,
                                                       v_unserialized = [decodedString],
                                                       v_err = None\<rparr>
                                          | (t1, Some e1) \<Rightarrow>
                                              (case Unserialize s decodedData t1 of
                                                 (t2, Some e2) \<Rightarrow>
                                                   Returns \<lparr>v_crypt = crypt', v_target = t2,
                                                     v_unserialized = [decodedString, decodedData],
                                                     v_err = Some (fmt_Errorf_w
                                                       ''failed to unserialize both quoted and raw data: '' e2)\<rparr>
                                               | (t2, None) \<Rightarrow>
                                                   Returns \<lparr>v_crypt = crypt', v_target = t2,
                                                     v_unserialized = [decodedString, decodedData],
                                                     v_err = None\<rparr>)))))))"

text \<open>\<open>Generate\<close> returns the pair \<open>(string, error)\<close>, with the receiver's struct after
  the call.\<close>

definition Generate :: "'v MessageVerifier option \<Rightarrow> 'v \<Rightarrow> ('v MessageVerifier option \<times> string \<times> error option) outcome" where
  "Generate crypt val =
     (case checkInit crypt of
        (crypt', Some e) \<Rightarrow> Returns (crypt', [], Some e)
      | (crypt', None) \<Rightarrow>
          (case crypt' of
             None \<Rightarrow> Panics nil_dereference
           | Some c \<Rightarrow>
               (case Serializer c of
                  None \<Rightarrow> Panics nil_dereference
                | Some s \<Rightarrow>
                    (case Serialize s val of
                       (data, Some e) \<Rightarrow> Returns (crypt', [], Some e)
                     | (data, None) \<Rightarrow>
                         (let str = EncodeToString data
                          in case DigestFor crypt' str of
                               Panics p \<Rightarrow> Panics p
                             | Returns digest \<Rightarrow> Returns (crypt', str @ ''--'' @ digest, None))))))"

text \<open>An error made by \<open>invalid\<close>: the verifier's "Invalid signature" errors.\<close>

definition is_InvalidSignature :: "error \<Rightarrow> bool" where
  "is_InvalidSignature e =
     (case e of errors_New m \<Rightarrow> prefix ''Invalid signature - '' m | _ \<Rightarrow> False)"

section \<open>Notions used to state the properties\<close>

text \<open>
  The hash in use once \<open>checkInit\<close> has run: the field \<open>Hasher\<close>, or \<open>sha1.New\<close> when
  the field was nil; and the struct that \<open>checkInit\<close> leaves when it finds a Serializer.
\<close>

definition effective_Hasher :: "'v MessageVerifier \<Rightarrow> hash_Hash" where
  "effective_Hasher c = (case Hasher c of None \<Rightarrow> sha1_New | Some h \<Rightarrow> h)"

definition validated :: "'v MessageVerifier \<Rightarrow> 'v MessageVerifier" where
  "validated c = c\<lparr>Hasher := Some (effective_Hasher c)\<rparr>"

text \<open>
  Two serializers for strings, used as concrete inputs. \<open>plain_serializer\<close> hands the
  string through unchanged in both directions. \<open>quoting_serializer\<close> writes a string as
  a literal between double quotes and reads back exactly such literals (with no double
  quote inside), leaving the target alone on any other input.
\<close>

definition plain_serializer :: "string MsgSerializer" where
  "plain_serializer = \<lparr>Serialize = (\<lambda>v. (v, None)), Unserialize = (\<lambda>data target. (data, None))\<rparr>"

definition quoting_serializer :: "string MsgSerializer" where
  "quoting_serializer =
     \<lparr>Serialize = (\<lambda>v. (dquote # v @ [dquote], None)),
      Unserialize = (\<lambda>data target.
        case data of
          [] \<Rightarrow> (target, Some (errors_New ''not a string literal''))
        | c # cs \<Rightarrow>
            if c = dquote \<and> cs \<noteq> [] \<and> last cs = dquote \<and> dquote \<notin> set (butlast cs)
            then (butlast cs, None)
            else (target, Some (errors_New ''not a string literal'')))\<rparr>"

definition example_verifier :: "string MsgSerializer \<Rightarrow> string MessageVerifier" where
  "example_verifier s =
     \<lparr>Secret = Some ''s3cr3t-32-bytes-minimum-xxxxxxxx'', Hasher = None, Serializer = Some s\<rparr>"

definition empty_key_verifier :: "string MessageVerifier" where
  "empty_key_verifier = \<lparr>Secret = Some [], Hasher = None, Serializer = Some plain_serializer\<rparr>"

text \<open>
  Verifiers used as concrete inputs: one with no Secret, one with a Secret and no Hasher,
  and the second as \<open>checkInit\<close> leaves it.
\<close>

definition no_secret_verifier :: "string MessageVerifier" where
  "no_secret_verifier = \<lparr>Secret = None, Hasher = None, Serializer = Some plain_serializer\<rparr>"

definition no_hasher_verifier :: "string MessageVerifier" where
  "no_hasher_verifier = \<lparr>Secret = Some ''k'', Hasher = None, Serializer = Some plain_serializer\<rparr>"

definition sha1_verifier :: "string MessageVerifier" where
  "sha1_verifier = \<lparr>Secret = Some ''k'', Hasher = Some sha1_New, Serializer = Some plain_serializer\<rparr>"

section \<open>Properties of the comparison\<close>

lemma xor_int_eq_0: "((k :: int) XOR l = 0) = (k = l)"
proof
  assume h: "k XOR l = 0"
  have "k = (k XOR l) XOR l" by (simp add: xor.assoc)
  with h show "k = l" by simp
qed simp

lemma xor_char_eq_0: "((of_char y :: int) XOR of_char x = 0) = (x = y)"
  by (auto simp: xor_int_eq_0)

lemma secureCompare_loop_fold:
  "length a = length b \<Longrightarrow>
   secureCompare_loop a b i res =
     foldl (OR) res (map (\<lambda>(x, y). of_char y XOR of_char x) (drop i (zip a b)))"
proof (induction a b i res rule: secureCompare_loop.induct)
  case (1 a b i res)
  show ?case
  proof (cases "i < length a")
    case True
    then have "drop i (zip a b) = (a ! i, b ! i) # drop (Suc i) (zip a b)"
      using "1.prems" by (simp add: Cons_nth_drop_Suc [symmetric])
    with True "1.IH" "1.prems" show ?thesis
      by (subst secureCompare_loop.simps) simp
  next
    case False
    with "1.prems" show ?thesis
      by (subst secureCompare_loop.simps) simp
  qed
qed

lemma foldl_or_eq_0: "(foldl (OR) (res :: int) ds = 0) = (res = 0 \<and> (\<forall>d \<in> set ds. d = 0))"
  by (induction ds arbitrary: res) (auto simp: or_eq_0_iff)

lemma zip_all_eq: "length a = length b \<Longrightarrow> (\<forall>p \<in> set (zip a b). fst p = snd p) = (a = b)"
  by (induction a b rule: list_induct2) auto

lemma secureCompare_iff: "secureCompare a b = (a = b)"
proof (cases "length a = length b")
  case True
  have "secureCompare a b = (\<forall>p \<in> set (zip a b). fst p = snd p)"
    using True
    by (auto simp: secureCompare_def secureCompare_loop_fold foldl_or_eq_0 xor_char_eq_0)
  with True show ?thesis by (simp add: zip_all_eq)
next
  case False
  then show ?thesis by (auto simp: secureCompare_def)
qed

section \<open>Properties of the library functions\<close>

lemma Split_no_dash: "CHR ''-'' \<notin> set s \<Longrightarrow> Split s ''--'' = [s]"
  by (induction s) auto

lemma Split_dash_once:
  "CHR ''-'' \<notin> set a \<Longrightarrow> CHR ''-'' \<notin> set b \<Longrightarrow> Split (a @ ''--'' @ b) ''--'' = [a, b]"
  by (induction a) (auto simp: Split_no_dash)

lemma hex_length: "length (hex_EncodeToString s) = 2 * length s"
  by (induction s) auto

lemma sha1_length: "length (sha1_Sum m) = 20"
  by (simp add: sha1_Sum_def be_bytes32_def Let_def split: prod.splits)

lemma length_encodeStd: "length encodeStd = 64"
  by (simp add: encodeStd_def)

lemma distinct_encodeStd: "distinct encodeStd"
  by (simp add: encodeStd_def)

lemma decodeMap_encodeStd: "i < 64 \<Longrightarrow> decodeMap (encodeStd ! i) = Some i"
proof -
  assume h: "i < 64"
  have "map_of (zip encodeStd [0..<64]) (encodeStd ! i) = Some ([0..<64] ! i)"
    using h by (intro map_of_zip_nth) (simp_all add: length_encodeStd distinct_encodeStd)
  with h show ?thesis by (simp add: decodeMap_def)
qed

lemma enc6_in: "enc6 val k \<in> set encodeStd"
  by (simp add: enc6_def length_encodeStd)

lemma decodeMap_enc6: "decodeMap (enc6 val k) = Some (val div 2 ^ k mod 64)"
  by (simp add: enc6_def decodeMap_encodeStd)

lemma dash_notin_encodeStd: "CHR ''-'' \<notin> set encodeStd"
  by (simp add: encodeStd_def)

lemma sextets:
  fixes val :: nat
  assumes "val < 16777216"
  shows "(val div 262144 mod 64) * 262144 + (val div 4096 mod 64) * 4096
           + (val div 64 mod 64) * 64 + val mod 64 = val"
proof -
  define q1 where "q1 = val div 64"
  define q2 where "q2 = q1 div 64"
  define q3 where "q3 = q2 div 64"
  define r0 where "r0 = val mod 64"
  define r1 where "r1 = q1 mod 64"
  define r2 where "r2 = q2 mod 64"
  have d1: "val div 4096 = q2"
    unfolding q2_def q1_def by (simp add: div_mult2_eq [symmetric])
  have d2: "val div 262144 = q3"
    unfolding q3_def q2_def q1_def by (simp add: div_mult2_eq [symmetric])
  have "q3 < 64"
    using assms unfolding d2 [symmetric] by (simp add: less_mult_imp_div_less)
  then have m3: "q3 mod 64 = q3" by simp
  have e1: "val = q1 * 64 + r0" unfolding q1_def r0_def by simp
  have e2: "q1 = q2 * 64 + r1" unfolding q2_def r1_def by simp
  have e3: "q2 = q3 * 64 + r2" unfolding q3_def r2_def by simp
  have "q3 * 262144 + r2 * 4096 + r1 * 64 + r0 = val"
    using e1 e2 e3 by linarith
  then show ?thesis
    unfolding d1 d2 m3 r2_def [symmetric] q1_def [symmetric] r1_def [symmetric] r0_def [symmetric] .
qed

lemma divmod_base: "r < m \<Longrightarrow> (q * m + r) div m = q \<and> (q * m + r) mod m = (r::nat)"
  by simp

lemma bytes3:
  fixes b0 b1 b2 :: nat
  assumes "b0 < 256" "b1 < 256" "b2 < 256"
  shows "(b0 * 65536 + b1 * 256 + b2) div 65536 mod 256 = b0"
    and "(b0 * 65536 + b1 * 256 + b2) div 256 mod 256 = b1"
    and "(b0 * 65536 + b1 * 256 + b2) mod 256 = b2"
proof -
  have a: "b0 * 65536 + b1 * 256 + b2 = b0 * 65536 + (b1 * 256 + b2)" by simp
  have "b1 * 256 + b2 < 65536" using assms by linarith
  then have "(b0 * 65536 + (b1 * 256 + b2)) div 65536 = b0" by (rule divmod_base [THEN conjunct1])
  then show "(b0 * 65536 + b1 * 256 + b2) div 65536 mod 256 = b0" using assms by (simp add: a)
  have b: "b0 * 65536 + b1 * 256 + b2 = (b0 * 256 + b1) * 256 + b2" by simp
  have c: "((b0 * 256 + b1) * 256 + b2) div 256 = b0 * 256 + b1"
    using assms(3) by (rule divmod_base [THEN conjunct1])
  have d: "(b0 * 256 + b1) mod 256 = b1"
    using assms(2) by (rule divmod_base [THEN conjunct2])
  show "(b0 * 65536 + b1 * 256 + b2) div 256 mod 256 = b1"
    by (simp only: b c d)
  have e: "((b0 * 256 + b1) * 256 + b2) mod 256 = b2"
    using assms(3) by (rule divmod_base [THEN conjunct2])
  show "(b0 * 65536 + b1 * 256 + b2) mod 256 = b2"
    by (simp only: b e)
qed

lemma val24: "of_char b0 * 65536 + of_char b1 * 256 + of_char b2 < (16777216::nat)"
proof -
  have "of_char b0 < (256::nat)" "of_char b1 < (256::nat)" "of_char b2 < (256::nat)" by simp_all
  then show ?thesis by linarith
qed

lemma quantum4:
  fixes b0 b1 b2 :: char
  defines "val \<equiv> of_char b0 * 2 ^ 16 + of_char b1 * 2 ^ 8 + of_char b2"
  shows "quantum_bytes [val div 2 ^ 18 mod 64, val div 2 ^ 12 mod 64, val div 2 ^ 6 mod 64, val div 2 ^ 0 mod 64] e
         = ([b0, b1, b2], e)"
proof -
  have v: "val = of_char b0 * 65536 + of_char b1 * 256 + of_char b2" by (simp add: val_def)
  have "val < 16777216" unfolding v by (rule val24)
  from this sextets [OF this] have q: "quantum_val [val div 262144 mod 64, val div 4096 mod 64, val div 64 mod 64, val mod 64] = val"
    by (simp add: quantum_val_def)
  have b: "val div 65536 mod 256 = of_char b0" "val div 256 mod 256 = of_char b1" "val mod 256 = of_char b2"
    unfolding v by (rule bytes3; simp)+
  have c: "char_of (val div 65536) = b0" "char_of (val div 256) = b1" "char_of val = b2"
    using b by (metis char_of_mod_256 char_of_char)+
  show ?thesis
    by (simp add: quantum_bytes_def q c)
qed

lemma quantum3:
  fixes b0 b1 :: char
  defines "val \<equiv> of_char b0 * 2 ^ 16 + of_char b1 * 2 ^ 8"
  shows "quantum_bytes [val div 2 ^ 18 mod 64, val div 2 ^ 12 mod 64, val div 2 ^ 6 mod 64] e
         = ([b0, b1], e)"
proof -
  have v0: "val = of_char b0 * 65536 + of_char b1 * 256" by (simp add: val_def)
  have z: "val mod 64 = 0" unfolding v0 by simp
  have v: "val = of_char b0 * 65536 + of_char b1 * 256 + of_char (CHR 0x00)" by (simp add: val_def)
  have "val < 16777216" unfolding v by (rule val24)
  from this sextets [OF this] z
  have q: "quantum_val [val div 262144 mod 64, val div 4096 mod 64, val div 64 mod 64] = val"
    by (simp add: quantum_val_def)
  have b: "val div 65536 mod 256 = of_char b0" "val div 256 mod 256 = of_char b1" "val mod 256 = 0"
    unfolding v by (rule bytes3 [THEN trans]; simp)+
  have c: "char_of (val div 65536) = b0" "char_of (val div 256) = b1"
    using b by (metis char_of_mod_256 char_of_char)+
  show ?thesis
    by (simp add: quantum_bytes_def q c b)
qed

lemma quantum2:
  fixes b0 :: char
  defines "val \<equiv> of_char b0 * 2 ^ 16"
  shows "quantum_bytes [val div 2 ^ 18 mod 64, val div 2 ^ 12 mod 64] e = ([b0], e)"
proof -
  have v0: "val = of_char b0 * 65536" by (simp add: val_def)
  have z: "val mod 64 = 0" "val div 64 mod 64 = 0" unfolding v0 by simp_all
  have v: "val = of_char b0 * 65536 + of_char (CHR 0x00) * 256 + of_char (CHR 0x00)" by (simp add: val_def)
  have "val < 16777216" unfolding v by (rule val24)
  from this sextets [OF this] z
  have q: "quantum_val [val div 262144 mod 64, val div 4096 mod 64] = val"
    by (simp add: quantum_val_def)
  have b: "val div 65536 mod 256 = of_char b0" "val div 256 mod 256 = 0" "val mod 256 = 0"
    unfolding v by (rule bytes3 [THEN trans]; simp)+
  have c: "char_of (val div 65536) = b0"
    using b by (metis char_of_mod_256 char_of_char)
  show ?thesis
    by (simp add: quantum_bytes_def q c b)
qed

lemma enc6_not_special:
  "\<not> is_newline (enc6 val k)" "enc6 val k \<noteq> StdPadding" "enc6 val k \<noteq> CHR ''-''"
  "CHR ''-'' \<noteq> enc6 val k"
  using enc6_in [of val k] by (auto simp: encodeStd_def is_newline_def StdPadding_def)

lemma decodeMap_StdPadding: "decodeMap StdPadding = None"
  by (simp add: decodeMap_def StdPadding_def encodeStd_def)

lemma is_newline_StdPadding: "\<not> is_newline StdPadding"
  by (simp add: is_newline_def StdPadding_def)

lemma decode_Some:
  "decodeMap c = Some v \<Longrightarrow> length dbuf \<noteq> 3 \<Longrightarrow> decode dbuf (c # src) = decode (dbuf @ [v]) src"
  by simp

lemma decode_Some3:
  "decodeMap c = Some v \<Longrightarrow> length dbuf = 3 \<Longrightarrow>
   decode dbuf (c # src) =
     (fst (quantum_bytes (dbuf @ [v]) None) @ fst (decode [] src), snd (decode [] src))"
  by (simp add: case_prod_beta)

lemma decode_pad2: "length dbuf = 2 \<Longrightarrow> decode dbuf [StdPadding, StdPadding] = quantum_bytes dbuf None"
  by (simp add: decodeMap_StdPadding is_newline_StdPadding)

lemma decode_pad3: "length dbuf = 3 \<Longrightarrow> decode dbuf [StdPadding] = quantum_bytes dbuf None"
  by (simp add: decodeMap_StdPadding is_newline_StdPadding)

lemma decode_EncodeToString: "decode [] (EncodeToString src) = (src, None)"
proof (induction src rule: EncodeToString.induct)
  case 1
  show ?case by simp
next
  case (2 b0)
  define val :: nat where "val = of_char b0 * 2 ^ 16"
  have "decode [] [enc6 val 18, enc6 val 12, StdPadding, StdPadding]
          = quantum_bytes [val div 2 ^ 18 mod 64, val div 2 ^ 12 mod 64] None"
    by (simp only: decode_Some [OF decodeMap_enc6] decode_pad2 list.size append.simps)
  also have "\<dots> = ([b0], None)"
    unfolding val_def by (rule quantum2)
  finally show ?case
    by (simp only: EncodeToString.simps Let_def val_def)
next
  case (3 b0 b1)
  define val :: nat where "val = of_char b0 * 2 ^ 16 + of_char b1 * 2 ^ 8"
  have "decode [] [enc6 val 18, enc6 val 12, enc6 val 6, StdPadding]
          = quantum_bytes [val div 2 ^ 18 mod 64, val div 2 ^ 12 mod 64, val div 2 ^ 6 mod 64] None"
    by (simp only: decode_Some [OF decodeMap_enc6] decode_pad3 list.size append.simps)
  also have "\<dots> = ([b0, b1], None)"
    unfolding val_def by (rule quantum3)
  finally show ?case
    by (simp only: EncodeToString.simps Let_def val_def)
next
  case (4 b0 b1 b2 src)
  define val :: nat where "val = of_char b0 * 2 ^ 16 + of_char b1 * 2 ^ 8 + of_char b2"
  have "decode [] (enc6 val 18 # enc6 val 12 # enc6 val 6 # enc6 val 0 # EncodeToString src)
          = (fst (quantum_bytes [val div 2 ^ 18 mod 64, val div 2 ^ 12 mod 64, val div 2 ^ 6 mod 64,
                               val div 2 ^ 0 mod 64] None) @ src, None)"
    by (simp add: decode_Some [OF decodeMap_enc6] decode_Some3 [OF decodeMap_enc6] 4
             del: decode.simps)
  also have "\<dots> = (b0 # b1 # b2 # src, None)"
    unfolding val_def by (simp only: quantum4) simp
  finally show ?case
    by (simp only: EncodeToString.simps Let_def val_def)
qed

lemma dash_notin_EncodeToString: "CHR ''-'' \<notin> set (EncodeToString src)"
  by (induction src rule: EncodeToString.induct)
     (auto simp: Let_def enc6_not_special StdPadding_def)

lemma hex_digits: "set (hex_EncodeToString s) \<subseteq> set hextable"
proof (induction s)
  case Nil
  show ?case by simp
next
  case (Cons v src)
  have l: "length hextable = 16" by (simp add: hextable_def)
  have "(of_char v :: nat) div 16 < 16" by (rule less_mult_imp_div_less) simp
  then have a: "hextable ! (of_char v div 16) \<in> set hextable" by (simp add: l)
  have b: "hextable ! (of_char v mod 16) \<in> set hextable" by (simp add: l)
  from a b Cons show ?case by simp
qed

lemma dash_notin_hex: "CHR ''-'' \<notin> set (hex_EncodeToString s)"
proof -
  have "CHR ''-'' \<notin> set hextable" by (simp add: hextable_def)
  with hex_digits [of s] show ?thesis by blast
qed

section \<open>The verifier, step by step\<close>

lemma DecodeString_EncodeToString: "DecodeString (EncodeToString src) = (src, None)"
  by (simp add: DecodeString_def decode_EncodeToString)

lemma checkInit_configured:
  "Serializer c = Some s \<Longrightarrow> Secret c = Some k \<Longrightarrow> checkInit (Some c) = (Some (validated c), None)"
  by (cases "Hasher c") (auto simp: checkInit_def Let_def validated_def effective_Hasher_def)

lemma validated_fields:
  "Secret (validated c) = Secret c" "Serializer (validated c) = Serializer c"
  "Hasher (validated c) = Some (effective_Hasher c)"
  by (simp_all add: validated_def)

lemma DigestFor_validated:
  "Secret c = Some k \<Longrightarrow>
   DigestFor (Some (validated c)) data = Returns (hex_EncodeToString (hmac_Sum (effective_Hasher c) k data))"
  by (simp add: DigestFor_def validated_fields)

lemma Verify_two_parts:
  assumes "Serializer c = Some s" "Secret c = Some k" "msg \<noteq> []" "Split msg ''--'' = [data, digest]"
  shows "Verify (Some c) msg t =
    (if digest \<noteq> hex_EncodeToString (hmac_Sum (effective_Hasher c) k data) then
       Returns \<lparr>v_crypt = Some (validated c), v_target = t, v_unserialized = [],
                v_err = Some (invalid ''bad data (compare)'')\<rparr>
     else
       (case Unserialize s (dquote # fst (DecodeString data) @ [dquote]) t of
          (t1, None) \<Rightarrow>
            Returns \<lparr>v_crypt = Some (validated c), v_target = t1,
                     v_unserialized = [dquote # fst (DecodeString data) @ [dquote]], v_err = None\<rparr>
        | (t1, Some e1) \<Rightarrow>
            (case Unserialize s (fst (DecodeString data)) t1 of
               (t2, Some e2) \<Rightarrow>
                 Returns \<lparr>v_crypt = Some (validated c), v_target = t2,
                   v_unserialized = [dquote # fst (DecodeString data) @ [dquote], fst (DecodeString data)],
                   v_err = Some (fmt_Errorf_w ''failed to unserialize both quoted and raw data: '' e2)\<rparr>
             | (t2, None) \<Rightarrow>
                 Returns \<lparr>v_crypt = Some (validated c), v_target = t2,
                   v_unserialized = [dquote # fst (DecodeString data) @ [dquote], fst (DecodeString data)],
                   v_err = None\<rparr>)))"
  using assms
  by (simp add: Verify_def checkInit_configured DigestFor_validated validated_fields
        secureCompare_iff Let_def)

lemma Verify_not_two_parts:
  assumes "Serializer c = Some s" "Secret c = Some k" "length (Split msg ''--'') \<noteq> 2"
  shows "Verify (Some c) msg t =
     Returns \<lparr>v_crypt = Some (validated c), v_target = t, v_unserialized = [],
              v_err = Some (invalid (if msg = [] then ''empty message'' else ''bad data --''))\<rparr>"
  using assms by (simp add: Verify_def checkInit_configured Let_def)

lemma Generate_configured:
  assumes "Serializer c = Some s" "Secret c = Some k" "Serialize s v = (data, None)"
  shows "Generate (Some c) v =
     Returns (Some (validated c),
              EncodeToString data @ ''--'' @
                hex_EncodeToString (hmac_Sum (effective_Hasher c) k (EncodeToString data)), None)"
  using assms
  by (simp add: Generate_def checkInit_configured DigestFor_validated validated_fields Let_def)

lemma is_InvalidSignature_invalid: "is_InvalidSignature (invalid m)"
  by (simp add: is_InvalidSignature_def invalid_def)

lemma not_InvalidSignature_wrap: "\<not> is_InvalidSignature (fmt_Errorf_w m e)"
  by (simp add: is_InvalidSignature_def)

lemma length_EncodeToString: "length (EncodeToString src) = 4 * ((length src + 2) div 3)"
  by (induction src rule: EncodeToString.induct) (simp_all add: Let_def, arith)

lemma alphabet_EncodeToString: "set (EncodeToString src) \<subseteq> set encodeStd \<union> {StdPadding}"
  by (induction src rule: EncodeToString.induct) (auto simp: Let_def enc6_in)

lemma checkInit_fst:
  "fst (checkInit (Some c)) =
     Some (if Hasher c = None \<and> Serializer c \<noteq> None then c\<lparr>Hasher := Some sha1_New\<rparr> else c)"
  by (simp add: checkInit_def Let_def)

lemma checkInit_error_or_configured:
  "(\<exists>e. snd (checkInit crypt) = Some e)
   \<or> (\<exists>c s k. crypt = Some c \<and> Serializer c = Some s \<and> Secret c = Some k)"
  by (cases crypt) (auto simp: checkInit_def Let_def)

lemma Generate_returns: "\<exists>r. Generate crypt v = Returns r \<and> fst r = fst (checkInit crypt)"
proof -
  consider e where "snd (checkInit crypt) = Some e"
    | c s k where "crypt = Some c" "Serializer c = Some s" "Secret c = Some k"
    using checkInit_error_or_configured [of crypt] by blast
  then show ?thesis
  proof cases
    case 1
    then show ?thesis by (cases "checkInit crypt") (simp add: Generate_def)
  next
    case 2
    obtain data e where d: "Serialize s v = (data, e)" by (cases "Serialize s v")
    show ?thesis
    proof (cases e)
      case None
      with d 2 show ?thesis by (simp add: Generate_configured checkInit_configured)
    next
      case (Some e')
      with d 2 show ?thesis
        by (simp add: Generate_def checkInit_configured validated_fields)
    qed
  qed
qed

lemma Split_two: "length xs = 2 \<Longrightarrow> \<exists>a b. xs = [a, b]"
  by (cases xs; cases "tl xs") auto

lemma Verify_returns: "\<exists>r. Verify crypt msg t = Returns r \<and> v_crypt r = fst (checkInit crypt)"
proof -
  consider e where "snd (checkInit crypt) = Some e"
    | c s k where "crypt = Some c" "Serializer c = Some s" "Secret c = Some k"
    using checkInit_error_or_configured [of crypt] by blast
  then show ?thesis
  proof cases
    case 1
    then show ?thesis by (cases "checkInit crypt") (simp add: Verify_def)
  next
    case 2
    show ?thesis
    proof (cases "length (Split msg ''--'') = 2")
      case False
      with 2 show ?thesis by (simp add: Verify_not_two_parts checkInit_configured)
    next
      case True
      then obtain data digest where sp: "Split msg ''--'' = [data, digest]"
        using Split_two by blast
      then have ne: "msg \<noteq> []" by auto
      show ?thesis
        using 2 by (simp add: Verify_two_parts [OF 2(2) 2(3) ne sp] checkInit_configured
                         split: prod.splits option.splits)
    qed
  qed
qed

lemma effective_Hasher_validated: "effective_Hasher (validated c) = effective_Hasher c"
  by (simp add: effective_Hasher_def validated_def)

lemma validated_idem: "validated (validated c) = validated c"
  by (simp add: validated_def effective_Hasher_def)

lemma Verify_generated:
  assumes "Serializer c = Some s" and "Secret c = Some k"
  shows "Verify (Some c)
           (EncodeToString d @ ''--'' @ hex_EncodeToString (hmac_Sum (effective_Hasher c) k (EncodeToString d))) t =
       (case Unserialize s (dquote # d @ [dquote]) t of
          (t1, None) \<Rightarrow>
            Returns \<lparr>v_crypt = Some (validated c), v_target = t1,
                     v_unserialized = [dquote # d @ [dquote]], v_err = None\<rparr>
        | (t1, Some e1) \<Rightarrow>
            (case Unserialize s d t1 of
               (t2, Some e2) \<Rightarrow>
                 Returns \<lparr>v_crypt = Some (validated c), v_target = t2,
                   v_unserialized = [dquote # d @ [dquote], d],
                   v_err = Some (fmt_Errorf_w ''failed to unserialize both quoted and raw data: '' e2)\<rparr>
             | (t2, None) \<Rightarrow>
                 Returns \<lparr>v_crypt = Some (validated c), v_target = t2,
                   v_unserialized = [dquote # d @ [dquote], d], v_err = None\<rparr>))"
proof -
  let ?enc = "EncodeToString d"
  let ?dig = "hex_EncodeToString (hmac_Sum (effective_Hasher c) k ?enc)"
  have sp: "Split (?enc @ ''--'' @ ?dig) ''--'' = [?enc, ?dig]"
    by (rule Split_dash_once) (rule dash_notin_EncodeToString, rule dash_notin_hex)
  have ne: "?enc @ ''--'' @ ?dig \<noteq> []" by simp
  show ?thesis
    by (simp only: Verify_two_parts [OF assms ne sp] DecodeString_EncodeToString fst_conv if_False
                   simp_thms)
qed

lemma DigestFor_sentinel_iff:
  "(DigestFor (Some c) data = Returns ''Y U SET NO SECRET???!'') = (Secret c = None)"
proof (cases "Secret c")
  case None
  then show ?thesis by (simp add: DigestFor_def)
next
  case (Some k)
  show ?thesis
  proof (cases "Hasher c")
    case None
    with Some show ?thesis by (simp add: DigestFor_def)
  next
    case h: (Some h)
    have "even (length (hex_EncodeToString (hmac_Sum h k data)))" by (simp add: hex_length)
    moreover have "odd (length ''Y U SET NO SECRET???!'')" by simp
    ultimately have "hex_EncodeToString (hmac_Sum h k data) \<noteq> ''Y U SET NO SECRET???!''"
      by metis
    with Some h show ?thesis by (simp add: DigestFor_def)
  qed
qed

lemma length_hmac_Sum:
  "(\<forall>m. length (hash_Sum h m) = hash_Size h) \<Longrightarrow> length (hmac_Sum h k data) = hash_Size h"
  by (simp add: hmac_Sum_def Let_def)

lemma sha1_New_Size: "length (hash_Sum sha1_New m) = hash_Size sha1_New"
  by (simp add: sha1_New_def sha1_length)

lemma length_hmac_sha1: "length (hmac_Sum sha1_New k data) = 20"
  using length_hmac_Sum [of sha1_New k data] by (simp add: sha1_New_Size) (simp add: sha1_New_def)

lemma effective_Hasher_example: "effective_Hasher (example_verifier s) = sha1_New"
  by (simp add: effective_Hasher_def example_verifier_def)

lemma example_verifier_fields:
  "Serializer (example_verifier s) = Some s"
  "Secret (example_verifier s) = Some ''s3cr3t-32-bytes-minimum-xxxxxxxx''"
  by (simp_all add: example_verifier_def)

lemma Unserialize_quoting_empty:
  "Unserialize quoting_serializer [dquote, dquote] t = ([], None)"
  by (simp add: quoting_serializer_def)

lemma Verify_odd_digest:
  assumes "Serializer c = Some s" and "Secret c = Some k"
    and "msg \<noteq> []" and "Split msg ''--'' = [data, digest]" and "odd (length digest)"
  shows "Verify (Some c) msg t =
     Returns \<lparr>v_crypt = Some (validated c), v_target = t, v_unserialized = [],
              v_err = Some (invalid ''bad data (compare)'')\<rparr>"
proof -
  have "even (length (hex_EncodeToString (hmac_Sum (effective_Hasher c) k data)))"
    by (simp add: hex_length)
  with assms(5) have "digest \<noteq> hex_EncodeToString (hmac_Sum (effective_Hasher c) k data)"
    by metis
  then show ?thesis
    by (simp add: Verify_two_parts [OF assms(1-4)])
qed

lemma hex_empty_iff: "(hex_EncodeToString bs = []) = (bs = [])"
  by (cases bs) simp_all

lemma Split_bang: "Split (''!!!'' @ ''--'' @ hex_EncodeToString bs) ''--'' = [''!!!'', hex_EncodeToString bs]"
  by (rule Split_dash_once) (simp, rule dash_notin_hex)

lemma decodeMap_None: "c \<notin> set encodeStd \<Longrightarrow> decodeMap c = None"
  by (simp add: decodeMap_def length_encodeStd)

lemma DecodeString_bang: "DecodeString ''!!!'' = ([], Some CorruptInputError)"
proof -
  have "decodeMap CHR ''!'' = None" by (rule decodeMap_None) (simp add: encodeStd_def)
  then show ?thesis
    by (simp add: DecodeString_def is_newline_def StdPadding_def)
qed

lemma quoting_round_trip_hello:
  "Unserialize quoting_serializer (dquote # ''hello'' @ [dquote]) t = (''hello'', None)"
  by (simp add: quoting_serializer_def dquote_def)

lemma quoting_rejects_quoted_hello:
  "snd (Unserialize quoting_serializer (dquote # (dquote # ''hello'' @ [dquote]) @ [dquote]) t) \<noteq> None"
  by (simp add: quoting_serializer_def dquote_def)

lemma Split_first:
  "CHR ''-'' \<notin> set a \<Longrightarrow> Split (a @ ''--'' @ b) ''--'' = a # Split b ''--''"
  by (induction a) auto

lemma Split_ne: "Split b ''--'' \<noteq> []"
  by (induction b) (auto split: list.splits)

lemma Split_Cons:
  "Split (c # cs) ''--'' =
     (if prefix ''--'' (c # cs) then [] # Split (drop 1 cs) ''--''
      else (case Split cs ''--'' of [] \<Rightarrow> [[c]] | p # ps \<Rightarrow> (c # p) # ps))"
proof -
  have "drop (length ''-'') cs = drop 1 cs" by simp
  then show ?thesis by (subst Split.simps(3)) (simp only:)
qed

lemma Split_single: "Split b ''--'' = [x] \<Longrightarrow> x = b"
proof (induction b arbitrary: x)
  case Nil
  then show ?case by simp
next
  case (Cons c cs)
  note prem = Cons.prems [unfolded Split_Cons]
  show ?case
  proof (cases "prefix ''--'' (c # cs)")
    case True
    with prem have "[] # Split (drop 1 cs) ''--'' = [x]" by (simp only: if_True)
    then have "Split (drop 1 cs) ''--'' = []" by (simp only: list.inject)
    with Split_ne show ?thesis by blast
  next
    case False
    obtain p ps where sp: "Split cs ''--'' = p # ps"
      using Split_ne [of cs] by (cases "Split cs ''--''") auto
    from prem False have "(case Split cs ''--'' of [] \<Rightarrow> [[c]] | p # ps \<Rightarrow> (c # p) # ps) = [x]"
      by (simp only: if_False)
    with sp have "ps = []" "x = c # p" by (simp_all only: list.case list.inject)
    with sp Cons.IH [of p] show ?thesis by (simp only:)
  qed
qed

section \<open>The claims\<close>

text \<open>
  C2. \<open>secureCompare\<close> returns false when the two strings differ in length, the length
  being tested before the loop; for strings of equal length its result is whether the
  OR over every position of the XOR of the two bytes is zero, which holds exactly when
  the strings are equal. When the verifier is configured and the message splits into a
  data half and a digest half, \<open>Verify\<close> returns an "Invalid signature" error (the one
  of the comparison step) exactly when \<open>secureCompare\<close> of the digest half and
  \<open>DigestFor(data)\<close> is false.
\<close>

theorem secureCompare_Verify:
  assumes "Serializer c = Some s" and "Secret c = Some k"
    and "msg \<noteq> []" and "Split msg ''--'' = [data, digest]"
  shows "secureCompare a b =
           (if length a \<noteq> length b then False
            else foldl (OR) 0 (map (\<lambda>(x, y). of_char y XOR of_char x) (zip a b)) = (0::int))
       \<and> secureCompare a b = (a = b)
       \<and> (\<exists>r. Verify (Some c) msg t = Returns r
              \<and> DigestFor (v_crypt r) data
                    = Returns (hex_EncodeToString (hmac_Sum (effective_Hasher c) k data))
              \<and> (\<exists>e. v_err r = Some e \<and> is_InvalidSignature e)
                    = (secureCompare digest (hex_EncodeToString (hmac_Sum (effective_Hasher c) k data)) = False)
              \<and> (v_err r = Some (invalid ''bad data (compare)''))
                    = (secureCompare digest (hex_EncodeToString (hmac_Sum (effective_Hasher c) k data)) = False))"
proof -
  have 1: "secureCompare a b =
           (if length a \<noteq> length b then False
            else foldl (OR) 0 (map (\<lambda>(x, y). of_char y XOR of_char x) (zip a b)) = (0::int))"
    by (simp add: secureCompare_def secureCompare_loop_fold)
  have 2: "secureCompare a b = (a = b)" by (rule secureCompare_iff)
  define expected where "expected = hex_EncodeToString (hmac_Sum (effective_Hasher c) k data)"
  have d: "DigestFor (Some (validated c)) data = Returns expected"
    unfolding expected_def using assms(2) by (rule DigestFor_validated)
  have 3: "\<exists>r. Verify (Some c) msg t = Returns r
              \<and> DigestFor (v_crypt r) data = Returns expected
              \<and> (\<exists>e. v_err r = Some e \<and> is_InvalidSignature e) = (secureCompare digest expected = False)
              \<and> (v_err r = Some (invalid ''bad data (compare)'')) = (secureCompare digest expected = False)"
  proof (cases "digest = expected")
    case False
    then show ?thesis
      using Verify_two_parts [OF assms, of t] d
      by (simp add: expected_def [symmetric] secureCompare_iff is_InvalidSignature_invalid)
  next
    case True
    then show ?thesis
      using Verify_two_parts [OF assms, of t] d
      by (auto simp: expected_def [symmetric] secureCompare_iff not_InvalidSignature_wrap invalid_def
               split: prod.splits option.splits)
  qed
  from 1 2 3 show ?thesis unfolding expected_def by blast
qed

theorem secureCompare_Verify_witness:
  "Serializer (example_verifier quoting_serializer) = Some quoting_serializer
   \<and> Secret (example_verifier quoting_serializer) = Some ''s3cr3t-32-bytes-minimum-xxxxxxxx''
   \<and> Split ''YQ==--00'' ''--'' = [''YQ=='', ''00'']
   \<and> secureCompare ''abc'' ''abd'' = (''abc'' = ''abd'')
   \<and> (\<exists>r. Verify (Some (example_verifier quoting_serializer)) ''YQ==--00'' ''old'' = Returns r
          \<and> (v_err r = Some (invalid ''bad data (compare)''))
              = (secureCompare ''00''
                   (hex_EncodeToString (hmac_Sum (effective_Hasher (example_verifier quoting_serializer))
                      ''s3cr3t-32-bytes-minimum-xxxxxxxx'' ''YQ=='')) = False))"
proof -
  have h: "Serializer (example_verifier quoting_serializer) = Some quoting_serializer"
          "Secret (example_verifier quoting_serializer) = Some ''s3cr3t-32-bytes-minimum-xxxxxxxx''"
          "''YQ==--00'' \<noteq> []"
          "Split ''YQ==--00'' ''--'' = [''YQ=='', ''00'']"
    by (simp_all add: example_verifier_def)
  from secureCompare_Verify [OF h, of "''abc''" "''abd''" "''old''"] h show ?thesis
    by blast
qed

text \<open>
  C5. For a configured verifier whose Serializer returns \<open>data\<close> for the value without
  an error, \<open>Generate\<close> returns \<open>encoded ++ "--" ++ DigestFor(encoded)\<close>, where
  \<open>encoded\<close> is the padded base64 encoding of \<open>data\<close> in the standard alphabet (four
  characters for every three bytes begun, decoding strictly back to \<open>data\<close>), and
  the digest is the keyed hash of \<open>encoded\<close>, not of \<open>data\<close>.
\<close>

theorem Generate_signed_string:
  assumes "Serializer c = Some s" and "Secret c = Some k" and "Serialize s v = (data, None)"
  shows "Generate (Some c) v =
           Returns (Some (validated c),
                    EncodeToString data @ ''--''
                      @ hex_EncodeToString (hmac_Sum (effective_Hasher c) k (EncodeToString data)),
                    None)
       \<and> DigestFor (Some (validated c)) (EncodeToString data)
           = Returns (hex_EncodeToString (hmac_Sum (effective_Hasher c) k (EncodeToString data)))
       \<and> set (EncodeToString data) \<subseteq> set encodeStd \<union> {StdPadding}
       \<and> length (EncodeToString data) = 4 * ((length data + 2) div 3)
       \<and> DecodeString (EncodeToString data) = (data, None)"
  using Generate_configured [OF assms] DigestFor_validated [OF assms(2)]
    alphabet_EncodeToString [of data]
  by (simp add: length_EncodeToString DecodeString_EncodeToString)

theorem Generate_signed_string_witness:
  "Serializer (example_verifier quoting_serializer) = Some quoting_serializer
   \<and> Secret (example_verifier quoting_serializer) = Some ''s3cr3t-32-bytes-minimum-xxxxxxxx''
   \<and> Serialize quoting_serializer ''hello'' = (dquote # ''hello'' @ [dquote], None)
   \<and> EncodeToString (dquote # ''hello'' @ [dquote]) = ''ImhlbGxvIg==''
   \<and> Generate (Some (example_verifier quoting_serializer)) ''hello'' =
        Returns (Some (validated (example_verifier quoting_serializer)),
                 ''ImhlbGxvIg=='' @ ''--''
                   @ hex_EncodeToString (hmac_Sum (effective_Hasher (example_verifier quoting_serializer))
                       ''s3cr3t-32-bytes-minimum-xxxxxxxx'' ''ImhlbGxvIg==''),
                 None)"
proof -
  have h: "Serializer (example_verifier quoting_serializer) = Some quoting_serializer"
          "Secret (example_verifier quoting_serializer) = Some ''s3cr3t-32-bytes-minimum-xxxxxxxx''"
          "Serialize quoting_serializer ''hello'' = (dquote # ''hello'' @ [dquote], None)"
    by (simp_all add: example_verifier_def quoting_serializer_def)
  have e: "EncodeToString (dquote # ''hello'' @ [dquote]) = ''ImhlbGxvIg==''"
    by (simp add: dquote_def enc6_def encodeStd_def StdPadding_def)
  from Generate_signed_string [OF h] h e show ?thesis
    by simp
qed

text \<open>
  C7. On a configured verifier, \<open>Verify("")\<close>, \<open>Verify("nodoubledash")\<close> and
  \<open>Verify("a--b--c")\<close> each return an "Invalid signature" error; the target keeps the
  value it held and \<open>Unserialize\<close> is not called.
\<close>

theorem Verify_rejects_malformed:
  assumes "Serializer c = Some s" and "Secret c = Some k"
  shows "Verify (Some c) '''' t =
           Returns \<lparr>v_crypt = Some (validated c), v_target = t, v_unserialized = [],
                    v_err = Some (invalid ''empty message'')\<rparr>
       \<and> Verify (Some c) ''nodoubledash'' t =
           Returns \<lparr>v_crypt = Some (validated c), v_target = t, v_unserialized = [],
                    v_err = Some (invalid ''bad data --'')\<rparr>
       \<and> Verify (Some c) ''a--b--c'' t =
           Returns \<lparr>v_crypt = Some (validated c), v_target = t, v_unserialized = [],
                    v_err = Some (invalid ''bad data --'')\<rparr>
       \<and> is_InvalidSignature (invalid ''empty message'')
       \<and> is_InvalidSignature (invalid ''bad data --'')"
proof -
  have "length (Split '''' ''--'') \<noteq> 2" "length (Split ''nodoubledash'' ''--'') \<noteq> 2"
       "length (Split ''a--b--c'' ''--'') \<noteq> 2"
    by simp_all
  then show ?thesis
    using assms by (simp add: Verify_not_two_parts is_InvalidSignature_invalid)
qed

theorem Verify_rejects_malformed_witness:
  "Serializer (example_verifier plain_serializer) = Some plain_serializer
   \<and> Secret (example_verifier plain_serializer) = Some ''s3cr3t-32-bytes-minimum-xxxxxxxx''
   \<and> Verify (Some (example_verifier plain_serializer)) '''' ''old'' =
         Returns \<lparr>v_crypt = Some (validated (example_verifier plain_serializer)), v_target = ''old'',
                  v_unserialized = [], v_err = Some (invalid ''empty message'')\<rparr>
   \<and> Verify (Some (example_verifier plain_serializer)) ''nodoubledash'' ''old'' =
         Returns \<lparr>v_crypt = Some (validated (example_verifier plain_serializer)), v_target = ''old'',
                  v_unserialized = [], v_err = Some (invalid ''bad data --'')\<rparr>
   \<and> Verify (Some (example_verifier plain_serializer)) ''a--b--c'' ''old'' =
         Returns \<lparr>v_crypt = Some (validated (example_verifier plain_serializer)), v_target = ''old'',
                  v_unserialized = [], v_err = Some (invalid ''bad data --'')\<rparr>"
proof -
  have h: "Serializer (example_verifier plain_serializer) = Some plain_serializer"
          "Secret (example_verifier plain_serializer) = Some ''s3cr3t-32-bytes-minimum-xxxxxxxx''"
    by (simp_all add: example_verifier_def)
  from Verify_rejects_malformed [OF h, of "''old''"] h show ?thesis
    by blast
qed

text \<open>
  C8 (as amended). \<open>IsValid\<close>, \<open>Generate\<close> and \<open>Verify\<close> on a nil \<open>*MessageVerifier\<close>
  return the error "MessageVerifier not set" and do not panic.
\<close>

theorem nil_receiver_returns_error:
  "IsValid None = (None, False, Some (errors_New ''MessageVerifier not set''))
   \<and> Generate None v = Returns (None, [], Some (errors_New ''MessageVerifier not set''))
   \<and> Verify None msg t =
         Returns \<lparr>v_crypt = None, v_target = t, v_unserialized = [],
                  v_err = Some (errors_New ''MessageVerifier not set'')\<rparr>"
  by (simp add: IsValid_def Generate_def Verify_def checkInit_def)

text \<open>
  C8 as stated also covers \<open>DigestFor\<close>, an exported method that reads \<open>crypt.Secret\<close>
  without calling \<open>checkInit\<close>: on a nil receiver it panics.
\<close>

theorem DigestFor_nil_receiver_panics:
  "DigestFor (None :: string MessageVerifier option) ''data'' = Panics nil_dereference"
  by (simp add: DigestFor_def)

text \<open>
  C10. The struct that \<open>checkInit\<close> leaves differs from the one it found at most in
  \<open>Hasher\<close>, which it sets to \<open>sha1.New\<close> when it was nil and a Serializer is set;
  \<open>Secret\<close> and \<open>Serializer\<close> are never assigned. With \<open>Hasher\<close> set the struct is
  left as it was, so a second validation changes nothing. \<open>IsValid\<close>, \<open>Generate\<close> and
  \<open>Verify\<close> always return, and leave the struct exactly as \<open>checkInit\<close> does.
\<close>

theorem only_Hasher_default_is_assigned:
  "fst (checkInit (Some c)) =
      Some (if Hasher c = None \<and> Serializer c \<noteq> None then c\<lparr>Hasher := Some sha1_New\<rparr> else c)
   \<and> fst (checkInit (None :: 'v MessageVerifier option)) = None
   \<and> fst (checkInit (Some (c\<lparr>Hasher := Some h\<rparr>))) = Some (c\<lparr>Hasher := Some h\<rparr>)
   \<and> fst (checkInit (fst (checkInit crypt))) = fst (checkInit crypt)
   \<and> fst (IsValid crypt) = fst (checkInit crypt)
   \<and> (\<exists>r. Generate crypt v = Returns r \<and> fst r = fst (checkInit crypt))
   \<and> (\<exists>r. Verify crypt msg t = Returns r \<and> v_crypt r = fst (checkInit crypt))"
proof -
  have a: "fst (checkInit (None :: 'v MessageVerifier option)) = None"
    by (simp add: checkInit_def)
  have b: "fst (checkInit (Some (c\<lparr>Hasher := Some h\<rparr>))) = Some (c\<lparr>Hasher := Some h\<rparr>)"
    by (simp add: checkInit_fst)
  have i: "fst (checkInit (fst (checkInit crypt))) = fst (checkInit crypt)"
    by (cases crypt) (simp_all add: checkInit_def Let_def)
  have v: "fst (IsValid crypt) = fst (checkInit crypt)"
    by (cases "checkInit crypt") (simp add: IsValid_def split: option.splits)
  from a b i v checkInit_fst [of c] Generate_returns [of crypt v] Verify_returns [of crypt msg t]
  show ?thesis by blast
qed

text \<open>
  C9. \<open>checkInit\<close> refuses the Secret only when it is nil. With a Secret that is set
  but empty, validation passes, \<open>DigestFor\<close> returns the keyed hash under the empty key
  and not the sentinel, \<open>Generate\<close> signs, and \<open>Verify\<close> of the signed string passes
  the comparison and hands the decoded data to the Serializer. \<open>DigestFor\<close> returns the
  sentinel exactly when the Secret is nil.
\<close>

theorem empty_Secret_is_a_key:
  assumes "Serializer c = Some s" and "Secret c = Some []" and "Serialize s v = (d, None)"
  shows "checkInit (Some c) = (Some (validated c), None)
       \<and> IsValid (Some c) = (Some (validated c), True, None)
       \<and> DigestFor (Some (validated c)) data
            = Returns (hex_EncodeToString (hmac_Sum (effective_Hasher c) [] data))
       \<and> DigestFor (Some (validated c)) data \<noteq> Returns ''Y U SET NO SECRET???!''
       \<and> Generate (Some c) v =
            Returns (Some (validated c),
                     EncodeToString d @ ''--''
                       @ hex_EncodeToString (hmac_Sum (effective_Hasher c) [] (EncodeToString d)),
                     None)
       \<and> (\<exists>r. Verify (Some c)
                  (EncodeToString d @ ''--''
                     @ hex_EncodeToString (hmac_Sum (effective_Hasher c) [] (EncodeToString d))) t
                = Returns r
              \<and> hd (v_unserialized r) = dquote # d @ [dquote]
              \<and> \<not> (\<exists>e. v_err r = Some e \<and> is_InvalidSignature e))
       \<and> (DigestFor (Some c2) data2 = Returns ''Y U SET NO SECRET???!'') = (Secret c2 = None)"
proof -
  have 1: "checkInit (Some c) = (Some (validated c), None)"
    using assms(1,2) by (rule checkInit_configured)
  then have 2: "IsValid (Some c) = (Some (validated c), True, None)"
    by (simp add: IsValid_def)
  have 3: "DigestFor (Some (validated c)) data
            = Returns (hex_EncodeToString (hmac_Sum (effective_Hasher c) [] data))"
    using assms(2) by (rule DigestFor_validated)
  have 4: "DigestFor (Some (validated c)) data \<noteq> Returns ''Y U SET NO SECRET???!''"
    using DigestFor_sentinel_iff [of "validated c" data] assms(2) by (simp add: validated_fields)
  note 5 = Generate_configured [OF assms]
  have 6: "\<exists>r. Verify (Some c)
                  (EncodeToString d @ ''--''
                     @ hex_EncodeToString (hmac_Sum (effective_Hasher c) [] (EncodeToString d))) t
                = Returns r
              \<and> hd (v_unserialized r) = dquote # d @ [dquote]
              \<and> \<not> (\<exists>e. v_err r = Some e \<and> is_InvalidSignature e)"
    by (subst Verify_generated [OF assms(1,2)])
       (auto simp: not_InvalidSignature_wrap split: prod.splits option.splits)
  from 1 2 3 4 5 6 DigestFor_sentinel_iff [of c2 data2] show ?thesis by blast
qed

theorem empty_Secret_is_a_key_witness:
  "Serializer empty_key_verifier = Some plain_serializer
   \<and> Secret empty_key_verifier = Some []
   \<and> Serialize plain_serializer ''hi'' = (''hi'', None)
   \<and> checkInit (Some empty_key_verifier) = (Some (validated empty_key_verifier), None)
   \<and> DigestFor (Some (validated empty_key_verifier)) ''aGk=''
        = Returns (hex_EncodeToString (hmac_Sum (effective_Hasher empty_key_verifier) [] ''aGk=''))
   \<and> DigestFor (Some (validated empty_key_verifier)) ''aGk='' \<noteq> Returns ''Y U SET NO SECRET???!''"
proof -
  have h: "Serializer empty_key_verifier = Some plain_serializer"
          "Secret empty_key_verifier = Some []"
          "Serialize plain_serializer ''hi'' = (''hi'', None)"
    by (simp_all add: empty_key_verifier_def plain_serializer_def)
  from empty_Secret_is_a_key [OF h, of "''aGk=''"] h show ?thesis
    by blast
qed

text \<open>
  C6. The claim promises the HMAC under the configured hash, SHA-1 by default, whenever
  a Secret is set, and the field comment says "Hasher defaults to sha1 if not set".
  \<open>DigestFor\<close> tests the Secret for nil but not the Hasher, and does not run
  \<open>checkInit\<close>: on a struct with a Secret and a nil Hasher it hands the nil function
  value to \<open>hmac.New\<close>, whose call of it panics. \<open>checkInit\<close> on the same struct
  assigns \<open>sha1.New\<close>, and \<open>DigestFor\<close> on the struct it leaves returns the HMAC-SHA1
  in 40 hexadecimal digits, which is what \<open>Generate\<close> and \<open>Verify\<close> get.
\<close>

theorem DigestFor_without_Hasher_panics:
  "Secret no_hasher_verifier = Some ''k''
   \<and> Hasher no_hasher_verifier = None
   \<and> DigestFor (Some no_hasher_verifier) ''x'' = Panics nil_dereference
   \<and> checkInit (Some no_hasher_verifier) = (Some sha1_verifier, None)
   \<and> DigestFor (Some sha1_verifier) ''x''
        = Returns (hex_EncodeToString (hmac_Sum sha1_New ''k'' ''x''))
   \<and> length (hex_EncodeToString (hmac_Sum sha1_New ''k'' ''x'')) = 40"
  by (simp add: DigestFor_def checkInit_def no_hasher_verifier_def sha1_verifier_def
        hex_length length_hmac_sha1)

text \<open>
  C4 (as amended). On a configured verifier, \<open>Verify\<close> of a non-empty message returns
  the "Invalid signature" error of the split step unless \<open>strings.Split\<close> on \<open>--\<close>
  yields exactly two parts. The two parts are not tested for emptiness: with two parts
  \<open>DigestFor(data)\<close> is computed and \<open>Verify\<close> returns an "Invalid signature" error,
  the one of the comparison step, exactly when the digest half differs from it. So
  \<open>"--x"\<close> is rejected by the comparison, \<open>"x--"\<close> is rejected by the comparison when the
  keyed hash is not empty, and an empty data half followed by its digest passes both
  steps and reaches the Serializer.
\<close>

theorem Verify_split_step:
  assumes "Serializer c = Some s" and "Secret c = Some k"
  shows "(msg \<noteq> [] \<and> length (Split msg ''--'') \<noteq> 2 \<longrightarrow>
            Verify (Some c) msg t =
              Returns \<lparr>v_crypt = Some (validated c), v_target = t, v_unserialized = [],
                       v_err = Some (invalid ''bad data --'')\<rparr>)
       \<and> (Split msg ''--'' = [data, digest] \<longrightarrow>
            (\<exists>r. Verify (Some c) msg t = Returns r
               \<and> (v_err r = Some (invalid ''bad data (compare)''))
                   = (digest \<noteq> hex_EncodeToString (hmac_Sum (effective_Hasher c) k data))
               \<and> (\<exists>e. v_err r = Some e \<and> is_InvalidSignature e)
                   = (digest \<noteq> hex_EncodeToString (hmac_Sum (effective_Hasher c) k data))))
       \<and> Verify (Some c) ''--x'' t =
            Returns \<lparr>v_crypt = Some (validated c), v_target = t, v_unserialized = [],
                     v_err = Some (invalid ''bad data (compare)'')\<rparr>
       \<and> (hmac_Sum (effective_Hasher c) k ''x'' \<noteq> [] \<longrightarrow>
            Verify (Some c) ''x--'' t =
              Returns \<lparr>v_crypt = Some (validated c), v_target = t, v_unserialized = [],
                       v_err = Some (invalid ''bad data (compare)'')\<rparr>)
       \<and> (\<exists>r. Verify (Some c) (''--'' @ hex_EncodeToString (hmac_Sum (effective_Hasher c) k [])) t
                 = Returns r
              \<and> v_unserialized r \<noteq> []
              \<and> hd (v_unserialized r) = [dquote, dquote]
              \<and> \<not> (\<exists>e. v_err r = Some e \<and> is_InvalidSignature e))"
proof -
  have 1: "msg \<noteq> [] \<and> length (Split msg ''--'') \<noteq> 2 \<longrightarrow>
            Verify (Some c) msg t =
              Returns \<lparr>v_crypt = Some (validated c), v_target = t, v_unserialized = [],
                       v_err = Some (invalid ''bad data --'')\<rparr>"
    using assms by (simp add: Verify_not_two_parts)
  have 2: "Split msg ''--'' = [data, digest] \<longrightarrow>
            (\<exists>r. Verify (Some c) msg t = Returns r
               \<and> (v_err r = Some (invalid ''bad data (compare)''))
                   = (digest \<noteq> hex_EncodeToString (hmac_Sum (effective_Hasher c) k data))
               \<and> (\<exists>e. v_err r = Some e \<and> is_InvalidSignature e)
                   = (digest \<noteq> hex_EncodeToString (hmac_Sum (effective_Hasher c) k data)))"
  proof
    assume sp: "Split msg ''--'' = [data, digest]"
    then have ne: "msg \<noteq> []" by auto
    show "\<exists>r. Verify (Some c) msg t = Returns r
               \<and> (v_err r = Some (invalid ''bad data (compare)''))
                   = (digest \<noteq> hex_EncodeToString (hmac_Sum (effective_Hasher c) k data))
               \<and> (\<exists>e. v_err r = Some e \<and> is_InvalidSignature e)
                   = (digest \<noteq> hex_EncodeToString (hmac_Sum (effective_Hasher c) k data))"
    proof (cases "digest = hex_EncodeToString (hmac_Sum (effective_Hasher c) k data)")
      case False
      then show ?thesis
        by (simp add: Verify_two_parts [OF assms ne sp] is_InvalidSignature_invalid)
    next
      case True
      then show ?thesis
        by (auto simp: Verify_two_parts [OF assms ne sp] not_InvalidSignature_wrap invalid_def
                 split: prod.splits option.splits)
    qed
  qed
  have 3: "Verify (Some c) ''--x'' t =
            Returns \<lparr>v_crypt = Some (validated c), v_target = t, v_unserialized = [],
                     v_err = Some (invalid ''bad data (compare)'')\<rparr>"
    by (rule Verify_odd_digest [OF assms, where data = "[]" and digest = "''x''"]) simp_all
  have 4: "hmac_Sum (effective_Hasher c) k ''x'' \<noteq> [] \<longrightarrow>
            Verify (Some c) ''x--'' t =
              Returns \<lparr>v_crypt = Some (validated c), v_target = t, v_unserialized = [],
                       v_err = Some (invalid ''bad data (compare)'')\<rparr>"
  proof
    assume "hmac_Sum (effective_Hasher c) k ''x'' \<noteq> []"
    then have d: "[] \<noteq> hex_EncodeToString (hmac_Sum (effective_Hasher c) k ''x'')"
      using hex_empty_iff [of "hmac_Sum (effective_Hasher c) k ''x''"] by metis
    have sp: "Split ''x--'' ''--'' = [''x'', []]" by simp
    show "Verify (Some c) ''x--'' t =
              Returns \<lparr>v_crypt = Some (validated c), v_target = t, v_unserialized = [],
                       v_err = Some (invalid ''bad data (compare)'')\<rparr>"
      using d by (simp add: Verify_two_parts [OF assms _ sp])
  qed
  have 5: "\<exists>r. Verify (Some c) (''--'' @ hex_EncodeToString (hmac_Sum (effective_Hasher c) k [])) t
                 = Returns r
              \<and> v_unserialized r \<noteq> []
              \<and> hd (v_unserialized r) = [dquote, dquote]
              \<and> \<not> (\<exists>e. v_err r = Some e \<and> is_InvalidSignature e)"
    using Verify_generated [OF assms, of "[]" t]
    by (auto simp: not_InvalidSignature_wrap split: prod.splits option.splits)
  from 1 2 3 4 5 show ?thesis by blast
qed

theorem Verify_split_step_witness:
  "Serializer (example_verifier quoting_serializer) = Some quoting_serializer
   \<and> Secret (example_verifier quoting_serializer) = Some ''s3cr3t-32-bytes-minimum-xxxxxxxx''
   \<and> ''a--b--c'' \<noteq> [] \<and> length (Split ''a--b--c'' ''--'') \<noteq> 2
   \<and> Verify (Some (example_verifier quoting_serializer)) ''a--b--c'' ''old'' =
         Returns \<lparr>v_crypt = Some (validated (example_verifier quoting_serializer)), v_target = ''old'',
                  v_unserialized = [], v_err = Some (invalid ''bad data --'')\<rparr>
   \<and> Split ''YQ==--0'' ''--'' = [''YQ=='', ''0'']
   \<and> (\<exists>r. Verify (Some (example_verifier quoting_serializer)) ''YQ==--0'' ''old'' = Returns r
          \<and> (v_err r = Some (invalid ''bad data (compare)''))
              = (''0'' \<noteq> hex_EncodeToString (hmac_Sum (effective_Hasher (example_verifier quoting_serializer))
                                ''s3cr3t-32-bytes-minimum-xxxxxxxx'' ''YQ=='')))
   \<and> Verify (Some (example_verifier quoting_serializer)) ''--x'' ''old'' =
         Returns \<lparr>v_crypt = Some (validated (example_verifier quoting_serializer)), v_target = ''old'',
                  v_unserialized = [], v_err = Some (invalid ''bad data (compare)'')\<rparr>
   \<and> hmac_Sum (effective_Hasher (example_verifier quoting_serializer))
         ''s3cr3t-32-bytes-minimum-xxxxxxxx'' ''x'' \<noteq> []
   \<and> Verify (Some (example_verifier quoting_serializer)) ''x--'' ''old'' =
         Returns \<lparr>v_crypt = Some (validated (example_verifier quoting_serializer)), v_target = ''old'',
                  v_unserialized = [], v_err = Some (invalid ''bad data (compare)'')\<rparr>"
proof -
  note h = example_verifier_fields [of quoting_serializer]
  have a: "''a--b--c'' \<noteq> [] \<and> length (Split ''a--b--c'' ''--'') \<noteq> 2" by simp
  have b: "Split ''YQ==--0'' ''--'' = [''YQ=='', ''0'']" by simp
  have "length (hmac_Sum sha1_New ''s3cr3t-32-bytes-minimum-xxxxxxxx'' ''x'') = 20"
    by (rule length_hmac_sha1)
  then have c: "hmac_Sum (effective_Hasher (example_verifier quoting_serializer))
         ''s3cr3t-32-bytes-minimum-xxxxxxxx'' ''x'' \<noteq> []"
    unfolding effective_Hasher_example by auto
  from Verify_split_step [OF h, of "''a--b--c''" "''old''" "[]" "[]"] a
  have 1: "Verify (Some (example_verifier quoting_serializer)) ''a--b--c'' ''old'' =
         Returns \<lparr>v_crypt = Some (validated (example_verifier quoting_serializer)), v_target = ''old'',
                  v_unserialized = [], v_err = Some (invalid ''bad data --'')\<rparr>"
    by blast
  from Verify_split_step [OF h, of "''YQ==--0''" "''old''" "''YQ==''" "''0''"] b c
  have 2: "(\<exists>r. Verify (Some (example_verifier quoting_serializer)) ''YQ==--0'' ''old'' = Returns r
          \<and> (v_err r = Some (invalid ''bad data (compare)''))
              = (''0'' \<noteq> hex_EncodeToString (hmac_Sum (effective_Hasher (example_verifier quoting_serializer))
                                ''s3cr3t-32-bytes-minimum-xxxxxxxx'' ''YQ=='')))
   \<and> Verify (Some (example_verifier quoting_serializer)) ''--x'' ''old'' =
         Returns \<lparr>v_crypt = Some (validated (example_verifier quoting_serializer)), v_target = ''old'',
                  v_unserialized = [], v_err = Some (invalid ''bad data (compare)'')\<rparr>
   \<and> Verify (Some (example_verifier quoting_serializer)) ''x--'' ''old'' =
         Returns \<lparr>v_crypt = Some (validated (example_verifier quoting_serializer)), v_target = ''old'',
                  v_unserialized = [], v_err = Some (invalid ''bad data (compare)'')\<rparr>"
    by blast
  from h a b c 1 2 show ?thesis by blast
qed

text \<open>
  C4 as stated fails on the code: the message made of an empty data half, \<open>--\<close> and the
  digest of the empty string splits into two parts of which the first is empty, and
  \<open>Verify\<close> returns no error for it; \<open>"--x"\<close> is rejected, but by the comparison step,
  after the digest has been computed.
\<close>

theorem Verify_accepts_empty_data_half:
  "Split (''--'' @ hex_EncodeToString (hmac_Sum sha1_New ''s3cr3t-32-bytes-minimum-xxxxxxxx'' [])) ''--''
     = [[], hex_EncodeToString (hmac_Sum sha1_New ''s3cr3t-32-bytes-minimum-xxxxxxxx'' [])]
   \<and> Verify (Some (example_verifier quoting_serializer))
         (''--'' @ hex_EncodeToString (hmac_Sum sha1_New ''s3cr3t-32-bytes-minimum-xxxxxxxx'' [])) ''old''
       = Returns \<lparr>v_crypt = Some (validated (example_verifier quoting_serializer)), v_target = [],
                  v_unserialized = [[dquote, dquote]], v_err = None\<rparr>
   \<and> Verify (Some (example_verifier quoting_serializer)) ''--x'' ''old''
       = Returns \<lparr>v_crypt = Some (validated (example_verifier quoting_serializer)), v_target = ''old'',
                  v_unserialized = [], v_err = Some (invalid ''bad data (compare)'')\<rparr>
   \<and> invalid ''bad data (compare)'' \<noteq> invalid ''bad data --''"
proof -
  note h = example_verifier_fields [of quoting_serializer]
  have 1: "Split (''--'' @ hex_EncodeToString (hmac_Sum sha1_New ''s3cr3t-32-bytes-minimum-xxxxxxxx'' [])) ''--''
     = [[], hex_EncodeToString (hmac_Sum sha1_New ''s3cr3t-32-bytes-minimum-xxxxxxxx'' [])]"
    using Split_dash_once [of "[]" "hex_EncodeToString (hmac_Sum sha1_New ''s3cr3t-32-bytes-minimum-xxxxxxxx'' [])"]
      dash_notin_hex by simp
  have 2: "Verify (Some (example_verifier quoting_serializer))
         (''--'' @ hex_EncodeToString (hmac_Sum sha1_New ''s3cr3t-32-bytes-minimum-xxxxxxxx'' [])) ''old''
       = Returns \<lparr>v_crypt = Some (validated (example_verifier quoting_serializer)), v_target = [],
                  v_unserialized = [[dquote, dquote]], v_err = None\<rparr>"
    using Verify_generated [OF h, of "[]" "''old''"]
    by (simp add: effective_Hasher_example Unserialize_quoting_empty)
  have 3: "Verify (Some (example_verifier quoting_serializer)) ''--x'' ''old''
       = Returns \<lparr>v_crypt = Some (validated (example_verifier quoting_serializer)), v_target = ''old'',
                  v_unserialized = [], v_err = Some (invalid ''bad data (compare)'')\<rparr>"
    by (rule Verify_odd_digest [OF h, where data = "[]" and digest = "''x''"]) simp_all
  have 4: "invalid ''bad data (compare)'' \<noteq> invalid ''bad data --''"
    by (simp add: invalid_def)
  from 1 2 3 4 show ?thesis by blast
qed

text \<open>
  C3. The claim requires \<open>Verify\<close> to fail with an "Invalid signature" error when the
  data half is not valid base64. The code calls the strict decoder and drops its error
  (\<open>decodedData, _ := ...\<close>), then hands whatever was decoded to the Serializer. Here
  the data half \<open>!!!\<close> is refused by the decoder, which returns no bytes; with the
  matching digest \<open>Verify\<close> passes \<open>""\<close> to \<open>Unserialize\<close>, returns no error and
  overwrites the target with the empty string.
\<close>

theorem Verify_swallows_decode_error:
  "DecodeString ''!!!'' = ([], Some CorruptInputError)
   \<and> Verify (Some (example_verifier quoting_serializer))
         (''!!!'' @ ''--'' @ hex_EncodeToString (hmac_Sum sha1_New ''s3cr3t-32-bytes-minimum-xxxxxxxx'' ''!!!''))
         ''old''
       = Returns \<lparr>v_crypt = Some (validated (example_verifier quoting_serializer)), v_target = [],
                  v_unserialized = [[dquote, dquote]], v_err = None\<rparr>"
proof -
  note h = example_verifier_fields [of quoting_serializer]
  let ?dig = "hex_EncodeToString (hmac_Sum sha1_New ''s3cr3t-32-bytes-minimum-xxxxxxxx'' ''!!!'')"
  have ne: "''!!!'' @ ''--'' @ ?dig \<noteq> []" by simp
  have "Verify (Some (example_verifier quoting_serializer)) (''!!!'' @ ''--'' @ ?dig) ''old''
       = Returns \<lparr>v_crypt = Some (validated (example_verifier quoting_serializer)), v_target = [],
                  v_unserialized = [[dquote, dquote]], v_err = None\<rparr>"
    by (simp only: Verify_two_parts [OF h ne Split_bang] effective_Hasher_example simp_thms if_False
                   DecodeString_bang fst_conv append_Nil Unserialize_quoting_empty prod.case option.case)
  with DecodeString_bang show ?thesis by blast
qed

text \<open>
  C1 (as amended). For a configured verifier and a value \<open>v\<close> that the Serializer
  writes as \<open>d\<close> and reads back from \<open>d\<close> whatever the target held, and whose quoted
  form (\<open>d\<close> between two double quotes) the Serializer either refuses or also reads as
  \<open>v\<close>: \<open>Generate(v)\<close> returns a signed string, and \<open>Verify\<close> of that string returns
  no error and leaves \<open>v\<close> in the target.
\<close>

theorem Verify_Generate_round_trip:
  assumes "Serializer c = Some s" and "Secret c = Some k"
    and "Serialize s v = (d, None)"
    and "\<forall>t. Unserialize s d t = (v, None)"
    and "fst (Unserialize s (dquote # d @ [dquote]) t0) = v
         \<or> snd (Unserialize s (dquote # d @ [dquote]) t0) \<noteq> None"
  shows "\<exists>signed r.
           Generate (Some c) v = Returns (Some (validated c), signed, None)
         \<and> signed = EncodeToString d @ ''--''
                      @ hex_EncodeToString (hmac_Sum (effective_Hasher c) k (EncodeToString d))
         \<and> Verify (Some (validated c)) signed t0 = Returns r
         \<and> v_err r = None \<and> v_target r = v \<and> v_crypt r = Some (validated c)"
proof -
  let ?signed = "EncodeToString d @ ''--''
                      @ hex_EncodeToString (hmac_Sum (effective_Hasher c) k (EncodeToString d))"
  have g: "Generate (Some c) v = Returns (Some (validated c), ?signed, None)"
    using assms(1-3) by (rule Generate_configured)
  have vs: "Serializer (validated c) = Some s" "Secret (validated c) = Some k"
    using assms(1,2) by (simp_all add: validated_fields)
  note ver = Verify_generated [OF vs, of d t0, unfolded effective_Hasher_validated validated_idem]
  obtain t1 e1 where u: "Unserialize s (dquote # d @ [dquote]) t0 = (t1, e1)"
    by (cases "Unserialize s (dquote # d @ [dquote]) t0")
  have "\<exists>r. Verify (Some (validated c)) ?signed t0 = Returns r
         \<and> v_err r = None \<and> v_target r = v \<and> v_crypt r = Some (validated c)"
  proof (cases e1)
    case None
    with assms(5) u have "t1 = v" by simp
    with None u show ?thesis by (subst ver) simp
  next
    case (Some e)
    with u assms(4) show ?thesis by (subst ver) simp
  qed
  with g show ?thesis by blast
qed

theorem Verify_Generate_round_trip_witness:
  "Serializer (example_verifier quoting_serializer) = Some quoting_serializer
   \<and> Secret (example_verifier quoting_serializer) = Some ''s3cr3t-32-bytes-minimum-xxxxxxxx''
   \<and> Serialize quoting_serializer ''hello'' = (dquote # ''hello'' @ [dquote], None)
   \<and> Unserialize quoting_serializer (dquote # ''hello'' @ [dquote]) ''old'' = (''hello'', None)
   \<and> snd (Unserialize quoting_serializer (dquote # (dquote # ''hello'' @ [dquote]) @ [dquote]) ''old'')
        \<noteq> None
   \<and> (\<exists>signed r.
         Generate (Some (example_verifier quoting_serializer)) ''hello''
           = Returns (Some (validated (example_verifier quoting_serializer)), signed, None)
       \<and> signed = EncodeToString (dquote # ''hello'' @ [dquote]) @ ''--''
                    @ hex_EncodeToString (hmac_Sum (effective_Hasher (example_verifier quoting_serializer))
                        ''s3cr3t-32-bytes-minimum-xxxxxxxx'' (EncodeToString (dquote # ''hello'' @ [dquote])))
       \<and> Verify (Some (validated (example_verifier quoting_serializer))) signed ''old'' = Returns r
       \<and> v_err r = None \<and> v_target r = ''hello'')"
proof -
  note h = example_verifier_fields [of quoting_serializer]
  have s: "Serialize quoting_serializer ''hello'' = (dquote # ''hello'' @ [dquote], None)"
    by (simp add: quoting_serializer_def)
  have rt: "\<forall>t. Unserialize quoting_serializer (dquote # ''hello'' @ [dquote]) t = (''hello'', None)"
    by (rule allI) (rule quoting_round_trip_hello)
  have q: "fst (Unserialize quoting_serializer (dquote # (dquote # ''hello'' @ [dquote]) @ [dquote]) ''old'')
             = ''hello''
         \<or> snd (Unserialize quoting_serializer (dquote # (dquote # ''hello'' @ [dquote]) @ [dquote]) ''old'')
             \<noteq> None"
    using quoting_rejects_quoted_hello [of "''old''"] by blast
  from Verify_Generate_round_trip [OF h s rt q] h s rt quoting_rejects_quoted_hello [of "''old''"]
  show ?thesis by blast
qed

text \<open>
  C1 as stated fails on the code: \<open>Verify\<close> first hands the decoded data between two
  double quotes to \<open>Unserialize\<close> and keeps the result when that call returns no error.
  The serializer that passes strings through round-trips every value, yet \<open>Verify\<close> of
  the string signed for \<open>hi\<close> leaves \<open>"hi"\<close>, with the quotes, in the target.
\<close>

theorem quoted_form_breaks_round_trip:
  "Serialize plain_serializer ''hi'' = (''hi'', None)
   \<and> Unserialize plain_serializer ''hi'' ''old'' = (''hi'', None)
   \<and> EncodeToString ''hi'' = ''aGk=''
   \<and> Generate (Some (example_verifier plain_serializer)) ''hi''
        = Returns (Some (validated (example_verifier plain_serializer)),
                   ''aGk='' @ ''--''
                     @ hex_EncodeToString (hmac_Sum sha1_New ''s3cr3t-32-bytes-minimum-xxxxxxxx'' ''aGk=''),
                   None)
   \<and> Verify (Some (validated (example_verifier plain_serializer)))
         (''aGk='' @ ''--''
            @ hex_EncodeToString (hmac_Sum sha1_New ''s3cr3t-32-bytes-minimum-xxxxxxxx'' ''aGk='')) ''old''
        = Returns \<lparr>v_crypt = Some (validated (example_verifier plain_serializer)),
                   v_target = dquote # ''hi'' @ [dquote],
                   v_unserialized = [dquote # ''hi'' @ [dquote]], v_err = None\<rparr>
   \<and> dquote # ''hi'' @ [dquote] \<noteq> ''hi''"
proof -
  note h = example_verifier_fields [of plain_serializer]
  have s: "Serialize plain_serializer ''hi'' = (''hi'', None)"
    by (simp add: plain_serializer_def)
  have u: "Unserialize plain_serializer x t = (x, None)" for x t
    by (simp add: plain_serializer_def)
  have e: "EncodeToString ''hi'' = ''aGk=''"
    by (simp add: enc6_def encodeStd_def StdPadding_def)
  have g: "Generate (Some (example_verifier plain_serializer)) ''hi''
        = Returns (Some (validated (example_verifier plain_serializer)),
                   ''aGk='' @ ''--''
                     @ hex_EncodeToString (hmac_Sum sha1_New ''s3cr3t-32-bytes-minimum-xxxxxxxx'' ''aGk=''),
                   None)"
    using Generate_configured [OF h s] by (simp only: e effective_Hasher_example)
  have vs: "Serializer (validated (example_verifier plain_serializer)) = Some plain_serializer"
    "Secret (validated (example_verifier plain_serializer)) = Some ''s3cr3t-32-bytes-minimum-xxxxxxxx''"
    using h by (simp_all add: validated_fields)
  have v: "Verify (Some (validated (example_verifier plain_serializer)))
         (''aGk='' @ ''--''
            @ hex_EncodeToString (hmac_Sum sha1_New ''s3cr3t-32-bytes-minimum-xxxxxxxx'' ''aGk='')) ''old''
        = Returns \<lparr>v_crypt = Some (validated (example_verifier plain_serializer)),
                   v_target = dquote # ''hi'' @ [dquote],
                   v_unserialized = [dquote # ''hi'' @ [dquote]], v_err = None\<rparr>"
    using Verify_generated [OF vs, of "''hi''" "''old''"]
    by (simp only: e effective_Hasher_validated effective_Hasher_example validated_idem u
                   prod.case option.case)
  have n: "dquote # ''hi'' @ [dquote] \<noteq> ''hi''" by simp
  from s u e g v n show ?thesis by blast
qed

text \<open>
  Tamper detection, digest half. On a configured verifier, a message made of the base64
  encoding of any data, \<open>--\<close> and anything other than the digest of that encoding is
  refused with an "Invalid signature" error (by the split step when the altered digest
  holds a \<open>--\<close>, by the comparison otherwise); the target is left alone and the
  Serializer is not called.
\<close>

theorem tampered_digest_rejected:
  assumes "Serializer c = Some s" and "Secret c = Some k"
    and "digest' \<noteq> hex_EncodeToString (hmac_Sum (effective_Hasher c) k (EncodeToString d))"
  shows "\<exists>e. Verify (Some c) (EncodeToString d @ ''--'' @ digest') t =
           Returns \<lparr>v_crypt = Some (validated c), v_target = t, v_unserialized = [], v_err = Some e\<rparr>
         \<and> is_InvalidSignature e"
proof -
  let ?msg = "EncodeToString d @ ''--'' @ digest'"
  have sp: "Split ?msg ''--'' = EncodeToString d # Split digest' ''--''"
    by (rule Split_first) (rule dash_notin_EncodeToString)
  have ne: "?msg \<noteq> []" by simp
  show ?thesis
  proof (cases "length (Split digest' ''--'') = 1")
    case True
    then obtain x where "Split digest' ''--'' = [x]"
      by (cases "Split digest' ''--''") auto
    then have "Split digest' ''--'' = [digest']" using Split_single by blast
    with sp have sp2: "Split ?msg ''--'' = [EncodeToString d, digest']" by simp
    show ?thesis
      using assms(3)
      by (simp only: Verify_two_parts [OF assms(1,2) ne sp2] if_True) (simp add: is_InvalidSignature_invalid)
  next
    case False
    with sp have "length (Split ?msg ''--'') \<noteq> 2" by simp
    from Verify_not_two_parts [OF assms(1,2) this, of t] ne show ?thesis
      by (simp add: is_InvalidSignature_invalid)
  qed
qed

theorem tampered_digest_rejected_witness:
  "Serializer (example_verifier plain_serializer) = Some plain_serializer
   \<and> Secret (example_verifier plain_serializer) = Some ''s3cr3t-32-bytes-minimum-xxxxxxxx''
   \<and> ''0'' \<noteq> hex_EncodeToString (hmac_Sum (effective_Hasher (example_verifier plain_serializer))
                 ''s3cr3t-32-bytes-minimum-xxxxxxxx'' (EncodeToString ''hi''))
   \<and> (\<exists>e. Verify (Some (example_verifier plain_serializer)) (EncodeToString ''hi'' @ ''--'' @ ''0'') ''old'' =
           Returns \<lparr>v_crypt = Some (validated (example_verifier plain_serializer)), v_target = ''old'',
                    v_unserialized = [], v_err = Some e\<rparr>
         \<and> is_InvalidSignature e)"
proof -
  note h = example_verifier_fields [of plain_serializer]
  have "even (length (hex_EncodeToString (hmac_Sum (effective_Hasher (example_verifier plain_serializer))
                 ''s3cr3t-32-bytes-minimum-xxxxxxxx'' (EncodeToString ''hi''))))"
    by (simp add: hex_length)
  moreover have "odd (length ''0'')" by simp
  ultimately have n: "''0'' \<noteq> hex_EncodeToString (hmac_Sum (effective_Hasher (example_verifier plain_serializer))
                 ''s3cr3t-32-bytes-minimum-xxxxxxxx'' (EncodeToString ''hi''))"
    by metis
  from tampered_digest_rejected [OF h n, of "''old''"] h n show ?thesis by blast
qed

text \<open>
  Configuration gating. With no Serializer, \<open>IsValid\<close>, \<open>Generate\<close> and \<open>Verify\<close>
  return "Serializer not set" and leave the struct as it was; with a Serializer and no
  Secret they return "Secret not set" (the Hasher default has been assigned by then).
  Nothing is serialized, hashed, encoded or deserialized in either case.
\<close>

theorem configuration_gates:
  "(Serializer c = None \<longrightarrow>
      IsValid (Some c) = (Some c, False, Some (errors_New ''Serializer not set''))
      \<and> Generate (Some c) v = Returns (Some c, [], Some (errors_New ''Serializer not set''))
      \<and> Verify (Some c) msg t =
           Returns \<lparr>v_crypt = Some c, v_target = t, v_unserialized = [],
                    v_err = Some (errors_New ''Serializer not set'')\<rparr>)
   \<and> (Serializer c = Some s \<and> Secret c = None \<longrightarrow>
      IsValid (Some c) = (Some (validated c), False, Some (errors_New ''Secret not set''))
      \<and> Generate (Some c) v = Returns (Some (validated c), [], Some (errors_New ''Secret not set''))
      \<and> Verify (Some c) msg t =
           Returns \<lparr>v_crypt = Some (validated c), v_target = t, v_unserialized = [],
                    v_err = Some (errors_New ''Secret not set'')\<rparr>)"
  by (cases "Hasher c")
     (auto simp: IsValid_def Generate_def Verify_def checkInit_def Let_def validated_def
                 effective_Hasher_def)

theorem configuration_gates_witness:
  "Serializer (no_secret_verifier\<lparr>Serializer := None\<rparr>) = None
   \<and> Generate (Some (no_secret_verifier\<lparr>Serializer := None\<rparr>)) ''hi''
       = Returns (Some (no_secret_verifier\<lparr>Serializer := None\<rparr>), [], Some (errors_New ''Serializer not set''))
   \<and> Serializer no_secret_verifier = Some plain_serializer \<and> Secret no_secret_verifier = None
   \<and> Verify (Some no_secret_verifier) ''aGk=--00'' ''old'' =
         Returns \<lparr>v_crypt = Some (validated no_secret_verifier), v_target = ''old'', v_unserialized = [],
                  v_err = Some (errors_New ''Secret not set'')\<rparr>"
proof -
  have a: "Serializer (no_secret_verifier\<lparr>Serializer := None\<rparr>) = None" by simp
  have b: "Serializer no_secret_verifier = Some plain_serializer \<and> Secret no_secret_verifier = None"
    by (simp add: no_secret_verifier_def)
  from configuration_gates [of "no_secret_verifier\<lparr>Serializer := None\<rparr>" "''hi''" "''aGk=--00''" "''old''"
                               plain_serializer] a
  have 1: "Generate (Some (no_secret_verifier\<lparr>Serializer := None\<rparr>)) ''hi''
       = Returns (Some (no_secret_verifier\<lparr>Serializer := None\<rparr>), [], Some (errors_New ''Serializer not set''))"
    by blast
  from configuration_gates [of no_secret_verifier "''hi''" "''aGk=--00''" "''old''" plain_serializer] b
  have 2: "Verify (Some no_secret_verifier) ''aGk=--00'' ''old'' =
         Returns \<lparr>v_crypt = Some (validated no_secret_verifier), v_target = ''old'', v_unserialized = [],
                  v_err = Some (errors_New ''Secret not set'')\<rparr>"
    by blast
  from a b 1 2 show ?thesis by blast
qed

text \<open>
  The digest of a verifier with a Secret and a Hasher. \<open>DigestFor\<close> returns the HMAC of
  the data under the Secret with that hash, written in lowercase hexadecimal, two
  digits per byte: \<open>2 * Size()\<close> digits when the hash returns \<open>Size()\<close> bytes, 40 for
  \<open>sha1.New\<close>. With no Secret it returns the sentinel string.
\<close>

theorem DigestFor_hex_hmac:
  "(Secret c = None \<longrightarrow> DigestFor (Some c) data = Returns ''Y U SET NO SECRET???!'')
   \<and> (Secret c = Some k \<and> Hasher c = Some h \<longrightarrow>
        DigestFor (Some c) data = Returns (hex_EncodeToString (hmac_Sum h k data))
        \<and> set (hex_EncodeToString (hmac_Sum h k data)) \<subseteq> set ''0123456789abcdef''
        \<and> length (hex_EncodeToString (hmac_Sum h k data)) = 2 * length (hmac_Sum h k data))
   \<and> (Secret c = Some k \<and> Hasher c = Some h \<and> (\<forall>m. length (hash_Sum h m) = hash_Size h) \<longrightarrow>
        length (hex_EncodeToString (hmac_Sum h k data)) = 2 * hash_Size h)
   \<and> (Secret c = Some k \<and> Hasher c = Some sha1_New \<longrightarrow>
        length (hex_EncodeToString (hmac_Sum sha1_New k data)) = 40)"
proof -
  have 1: "Secret c = None \<longrightarrow> DigestFor (Some c) data = Returns ''Y U SET NO SECRET???!''"
    by (simp add: DigestFor_def)
  have 2: "Secret c = Some k \<and> Hasher c = Some h \<longrightarrow>
        DigestFor (Some c) data = Returns (hex_EncodeToString (hmac_Sum h k data))
        \<and> set (hex_EncodeToString (hmac_Sum h k data)) \<subseteq> set ''0123456789abcdef''
        \<and> length (hex_EncodeToString (hmac_Sum h k data)) = 2 * length (hmac_Sum h k data)"
    using hex_digits [of "hmac_Sum h k data"]
    by (simp add: DigestFor_def hex_length hextable_def)
  have 3: "Secret c = Some k \<and> Hasher c = Some h \<and> (\<forall>m. length (hash_Sum h m) = hash_Size h) \<longrightarrow>
        length (hex_EncodeToString (hmac_Sum h k data)) = 2 * hash_Size h"
    by (simp add: hex_length length_hmac_Sum)
  have 4: "Secret c = Some k \<and> Hasher c = Some sha1_New \<longrightarrow>
        length (hex_EncodeToString (hmac_Sum sha1_New k data)) = 40"
    by (simp add: hex_length length_hmac_sha1)
  from 1 2 3 4 show ?thesis by blast
qed

theorem DigestFor_hex_hmac_witness:
  "Secret no_secret_verifier = None
   \<and> DigestFor (Some no_secret_verifier) ''x'' = Returns ''Y U SET NO SECRET???!''
   \<and> Secret sha1_verifier = Some ''k'' \<and> Hasher sha1_verifier = Some sha1_New
   \<and> DigestFor (Some sha1_verifier) ''x'' = Returns (hex_EncodeToString (hmac_Sum sha1_New ''k'' ''x''))
   \<and> length (hex_EncodeToString (hmac_Sum sha1_New ''k'' ''x'')) = 2 * hash_Size sha1_New
   \<and> length (hex_EncodeToString (hmac_Sum sha1_New ''k'' ''x'')) = 40"
proof -
  have a: "Secret no_secret_verifier = None"
    by (simp add: no_secret_verifier_def)
  have b: "Secret sha1_verifier = Some ''k'' \<and> Hasher sha1_verifier = Some sha1_New"
    by (simp add: sha1_verifier_def)
  have b': "\<forall>m. length (hash_Sum sha1_New m) = hash_Size sha1_New"
    by (simp add: sha1_New_Size)
  from DigestFor_hex_hmac [of no_secret_verifier "''x''" "''k''" sha1_New] a
  have 1: "DigestFor (Some no_secret_verifier) ''x'' = Returns ''Y U SET NO SECRET???!''"
    by blast
  from DigestFor_hex_hmac [of sha1_verifier "''x''" "''k''" sha1_New] b b'
  have 2: "DigestFor (Some sha1_verifier) ''x'' = Returns (hex_EncodeToString (hmac_Sum sha1_New ''k'' ''x''))
     \<and> length (hex_EncodeToString (hmac_Sum sha1_New ''k'' ''x'')) = 2 * hash_Size sha1_New
     \<and> length (hex_EncodeToString (hmac_Sum sha1_New ''k'' ''x'')) = 40"
    by blast
  from a b 1 2 show ?thesis by blast
qed

end
